theory Spec2Isabelle
  imports Main "HOL-Library.Word"
begin


unbundle bit_operations_syntax

section \<open>HPACK primitives (hpack_encoder.cpp, hpack_decoder.cpp)\<close>

text \<open>
  A \<open>std::byte\<close> is an 8-bit word.  \<open>uint64_t\<close> values are natural numbers; the only
  place where 64-bit arithmetic can wrap (the accumulation in \<open>decode_integer\<close>) has the
  reduction modulo \<open>2 ^ 64\<close> written out.  A \<open>std::span\<close> that a function advances is a
  list that the function returns together with its result.
\<close>

type_synonym byte = "8 word"

datatype HpackError =
    HpackError_OK
  | HpackError_COMPRESSION_ERROR
  | HpackError_INDEX_OUT_OF_BOUNDS
  | HpackError_INVALID_HUFFMAN_CODE
  | HpackError_INTEGER_OVERFLOW
  | HpackError_INVALID_STRING_LENGTH
  | HpackError_BUFFER_TOO_SMALL

subsection \<open>HpackEncoder::encode_integer\<close>

text \<open>
  The \<open>while (value >= 128)\<close> loop of \<open>encode_integer\<close> together with the final
  \<open>push_back\<close> of the last group.
\<close>

function encode_integer_loop :: "nat \<Rightarrow> byte list" where
  "encode_integer_loop val =
     (if val \<ge> 128
      then (0x80 OR of_nat (val mod 128)) # encode_integer_loop (val div 128)
      else [of_nat val])"
  by pat_completeness auto
termination
  by (relation "measure (\<lambda>v. v)") auto

declare encode_integer_loop.simps [simp del]

text \<open>
  \<open>uint8_t N = (1 << prefix_bits) - 1\<close> is truncated to eight bits.  The bytes are
  appended to \<open>buffer\<close>.
\<close>

definition encode_integer :: "byte list \<Rightarrow> byte \<Rightarrow> nat \<Rightarrow> nat \<Rightarrow> byte list" where
  "encode_integer buffer prefix_mask prefix_bits val =
     (let N = (2 ^ prefix_bits - 1) mod 256 in
      if val < N
      then buffer @ [prefix_mask OR of_nat val]
      else buffer @ [prefix_mask OR of_nat N] @ encode_integer_loop (val - N))"

subsection \<open>HpackDecoder::decode_integer\<close>

text \<open>
  The \<open>do ... while ((byte_val & 128) == 128)\<close> loop.  \<open>val\<close> and \<open>m\<close> are
  \<open>uint64_t\<close>; the shifted group and the sum are reduced modulo \<open>2 ^ 64\<close>.  (A shift by
  70 only happens in the iteration that then fails the \<open>m > 70\<close> test and drops the
  value.)  The result carries the span as the function leaves it.
\<close>

fun decode_integer_loop :: "byte list \<Rightarrow> nat \<Rightarrow> nat \<Rightarrow> nat \<times> HpackError \<times> byte list" where
  "decode_integer_loop [] val m = (0, HpackError_BUFFER_TOO_SMALL, [])"
| "decode_integer_loop (byte_val # data) val m =
     (if m div 128 > (2 ^ 64 - 1) div 128 \<and> m \<ge> 63 \<and> unat (byte_val AND 127) > 0
      then (0, HpackError_INTEGER_OVERFLOW, data)
      else
        let val' = (val + (unat (byte_val AND 127) * 2 ^ m) mod 2 ^ 64) mod 2 ^ 64;
            m' = m + 7
        in if m' > 70 then (0, HpackError_INTEGER_OVERFLOW, data)
           else if byte_val AND 128 = 128 then decode_integer_loop data val' m'
           else (val', HpackError_OK, data))"

definition decode_integer :: "byte list \<Rightarrow> nat \<Rightarrow> nat \<times> HpackError \<times> byte list" where
  "decode_integer data prefix_bits =
     (case data of
        [] \<Rightarrow> (0, HpackError_BUFFER_TOO_SMALL, [])
      | b # rest \<Rightarrow>
          let mask = (of_nat (2 ^ prefix_bits - 1) :: byte);
              val = unat (b AND mask)
          in if val < unat mask then (val, HpackError_OK, rest)
             else decode_integer_loop rest val 0)"



section \<open>Huffman codec (hpack_huffman.cpp)\<close>

datatype HuffmanError =
    HuffmanError_OK
  | HuffmanError_INVALID_INPUT
  | HuffmanError_INVALID_PADDING
  | HuffmanError_INCOMPLETE_CODE
  | HuffmanError_BUFFER_TOO_SMALL

text \<open>
  A \<open>std::string\<close> is the list of its octets.

  \<open>HUFFMAN_CODES\<close>, as the source gives it: entry \<open>k\<close> of the list is the pair
  \<open>(code, number_of_bits)\<close> stored under key \<open>k\<close>, for the keys 0 to 255.  (The source
  lists one more pair under the key 256, which a map keyed by \<open>uint8_t\<close> cannot hold; the
  code never reads it: the tree takes the end-of-string code from \<open>HUFFMAN_EOS\<close>.)
\<close>

definition HUFFMAN_CODES :: "(nat \<times> nat) list" where
  "HUFFMAN_CODES = [
   (0x1ff8, 13), (0x7fffd8, 23), (0xfffffe2, 28), (0xfffffe3, 28),
   (0xfffffe4, 28), (0xfffffe5, 28), (0xfffffe6, 28), (0xfffffe7, 28),
   (0xfffffe8, 28), (0xffffea, 24), (0x3ffffffc, 30), (0xfffffe9, 28),
   (0xfffffea, 28), (0x3ffffffd, 30), (0xfffffeb, 28), (0xfffffec, 28),
   (0xfffffed, 28), (0xfffffee, 28), (0xfffffef, 28), (0xffffff0, 28),
   (0xffffff1, 28), (0xffffff2, 28), (0x3ffffffe, 30), (0xffffff3, 28),
   (0xffffff4, 28), (0xffffff5, 28), (0xffffff6, 28), (0xffffff7, 28),
   (0xffffff8, 28), (0xffffff9, 28), (0xffffffa, 28), (0xffffffb, 28),
   (0x14, 6), (0x3f8, 10), (0x3f9, 10), (0x3fa, 10),
   (0x3fb, 10), (0x3fc, 10), (0x7fa, 11), (0x3fd, 10),
   (0x3fe, 10), (0x3ff, 10), (0x7fb, 11), (0x7fc, 11),
   (0x7fd, 11), (0x7fe, 11), (0x7ff0, 15), (0x7ff1, 15),
   (0x0, 5), (0x1, 5), (0x2, 5), (0x15, 6),
   (0x16, 6), (0x17, 6), (0x18, 6), (0x19, 6),
   (0x1a, 6), (0x1b, 6), (0x1c, 6), (0x1d, 6),
   (0x1e, 6), (0x1f, 6), (0x5c, 7), (0x5d, 7),
   (0x5e, 7), (0x5f, 7), (0x60, 7), (0x61, 7),
   (0x62, 7), (0x63, 7), (0x64, 7), (0x65, 7),
   (0x66, 7), (0x67, 7), (0x68, 7), (0x69, 7),
   (0x6a, 7), (0x6b, 7), (0x6c, 7), (0x6d, 7),
   (0x6e, 7), (0x6f, 7), (0x70, 7), (0x71, 7),
   (0x72, 7), (0x7f1, 11), (0x7f2, 11), (0x7f3, 11),
   (0x7f4, 11), (0x7f5, 11), (0x7f6, 11), (0x7f7, 11),
   (0x7f8, 11), (0x7f9, 11), (0x7fa0, 15), (0x7fa1, 15),
   (0x7fa2, 15), (0x3, 5), (0x20, 6), (0x21, 6),
   (0x22, 6), (0x4, 5), (0x23, 6), (0x24, 6),
   (0x25, 6), (0x5, 5), (0x26, 6), (0x27, 6),
   (0x28, 6), (0x29, 6), (0x2a, 6), (0x2b, 6),
   (0x2c, 6), (0x2d, 6), (0x2e, 6), (0x6, 5),
   (0x7, 5), (0x2f, 6), (0x73, 7), (0x74, 7),
   (0x30, 6), (0x31, 6), (0x32, 6), (0x7fa3, 15),
   (0x7fa4, 15), (0x7fa5, 15), (0x7fa6, 15), (0x7fa7, 15),
   (0x7fa8, 15), (0x7fa9, 15), (0x7faa, 15), (0x7fab, 15),
   (0x7fac, 15), (0x7fad, 15), (0x7fae, 15), (0x7faf, 15),
   (0x7fb0, 15), (0x7fb1, 15), (0x7fb2, 15), (0x7fb3, 15),
   (0x7fb4, 15), (0x7fb5, 15), (0x7fb6, 15), (0x7fb7, 15),
   (0x7fb8, 15), (0x7fb9, 15), (0x7fba, 15), (0x7fbb, 15),
   (0x7fbc, 15), (0x7fbd, 15), (0x7fbe, 15), (0x7fbf, 15),
   (0x7fc0, 15), (0x7fc1, 15), (0x7fc2, 15), (0x7fc3, 15),
   (0x7fc4, 15), (0x7fc5, 15), (0x7fc6, 15), (0x7fc7, 15),
   (0x7fc8, 15), (0x7fc9, 15), (0x7fca, 15), (0x7fcb, 15),
   (0x7fcc, 15), (0x7fcd, 15), (0x7fce, 15), (0x7fcf, 15),
   (0x7fd0, 15), (0x7fd1, 15), (0x7fd2, 15), (0x7fd3, 15),
   (0x7fd4, 15), (0x7fd5, 15), (0x7fd6, 15), (0x7fd7, 15),
   (0x7fd8, 15), (0x7fd9, 15), (0x7fda, 15), (0x7fdb, 15),
   (0x7fdc, 15), (0x7fdd, 15), (0x7fde, 15), (0x7fdf, 15),
   (0x7fe0, 15), (0x7fe1, 15), (0x7fe2, 15), (0x7fe3, 15),
   (0x7fe4, 15), (0x7fe5, 15), (0x7fe6, 15), (0x7fe7, 15),
   (0x7fe8, 15), (0x7fe9, 15), (0x7fea, 15), (0x7feb, 15),
   (0x7fec, 15), (0x7fed, 15), (0x7fee, 15), (0x7fef, 15),
   (0x7ff2, 15), (0x7ff3, 15), (0x7ff4, 15), (0x7ff5, 15),
   (0x7ff6, 15), (0x7ff7, 15), (0x7ff80, 19), (0x7ff81, 19),
   (0x7ff82, 19), (0x7ff83, 19), (0x7ff84, 19), (0x7ff85, 19),
   (0x7ff86, 19), (0x7ff87, 19), (0x7ff88, 19), (0x7ff89, 19),
   (0x7ff8a, 19), (0x7ff8b, 19), (0x7ff8c, 19), (0x7ff8d, 19),
   (0x7ff8e, 19), (0x7ff8f, 19), (0x7ff90, 19), (0x7ff91, 19),
   (0x7ff92, 19), (0x7ff93, 19), (0x7ff94, 19), (0x7ff95, 19),
   (0x7ff96, 19), (0x7ff97, 19), (0x7ff98, 19), (0x7ff99, 19),
   (0x7ff9a, 19), (0x7ff9b, 19), (0x7ff9c, 19), (0x7ff9d, 19),
   (0x7ff9e, 19), (0x7ff9f, 19), (0x7ffa0, 19), (0x7ffa1, 19),
   (0x7ffa2, 19), (0x7ffa3, 19), (0x7ffa4, 19), (0x7ffa5, 19),
   (0x7ffa6, 19), (0x7ffa7, 19), (0x7ffa8, 19), (0x7ffa9, 19),
   (0x7ffaa, 19), (0x7ffab, 19), (0x7ffac, 19), (0x7ffad, 19),
   (0x7ffae, 19), (0x7ffaf, 19), (0x7ffb0, 19), (0x7ffb1, 19)
  ]"

definition HUFFMAN_EOS :: nat where
  "HUFFMAN_EOS = 0x3fffffff"

text \<open>\<open>HUFFMAN_CODES.find(ch)\<close>: \<open>None\<close> stands for \<open>end()\<close>.\<close>

definition HUFFMAN_CODES_find :: "byte \<Rightarrow> (nat \<times> nat) option" where
  "HUFFMAN_CODES_find ch =
     (if unat ch < length HUFFMAN_CODES then Some (HUFFMAN_CODES ! unat ch) else None)"

subsection \<open>huffman_encode\<close>

text \<open>
  The inner loop \<open>while (bits_in_accumulator >= 8)\<close>: it returns the bit count and the
  output; the accumulator itself is not changed by it.
\<close>

function huffman_encode_drain :: "nat \<Rightarrow> nat \<Rightarrow> byte list \<Rightarrow> nat \<times> byte list" where
  "huffman_encode_drain acc bits_in_accumulator encoded_data =
     (if bits_in_accumulator \<ge> 8
      then huffman_encode_drain acc (bits_in_accumulator - 8)
             (encoded_data @ [of_nat (drop_bit (bits_in_accumulator - 8) acc AND 0xFF)])
      else (bits_in_accumulator, encoded_data))"
  by pat_completeness auto
termination
  by (relation "measure (\<lambda>(acc, b, out). b)") auto

declare huffman_encode_drain.simps [simp del]

text \<open>
  The loop over the characters of the input.  The accumulator is a \<open>uint64_t\<close>: the left
  shift drops the bits above bit 63.  \<open>None\<close> is the early return with
  \<open>HuffmanError::INVALID_INPUT\<close>.
\<close>

fun huffman_encode_loop :: "byte list \<Rightarrow> nat \<Rightarrow> nat \<Rightarrow> byte list \<Rightarrow> (nat \<times> nat \<times> byte list) option" where
  "huffman_encode_loop [] acc bits_in_accumulator encoded_data =
     Some (acc, bits_in_accumulator, encoded_data)"
| "huffman_encode_loop (ch # input) acc bits_in_accumulator encoded_data =
     (case HUFFMAN_CODES_find ch of
        None \<Rightarrow> None
      | Some (code, num_bits) \<Rightarrow>
          let acc' = take_bit 64 (push_bit num_bits acc) OR code;
              (bits', encoded_data') =
                 huffman_encode_drain acc' (bits_in_accumulator + num_bits) encoded_data
          in huffman_encode_loop input acc' bits' encoded_data')"

definition huffman_encode :: "byte list \<Rightarrow> byte list \<times> HuffmanError" where
  "huffman_encode input =
     (case huffman_encode_loop input 0 0 [] of
        None \<Rightarrow> ([], HuffmanError_INVALID_INPUT)
      | Some (acc, bits_in_accumulator, encoded_data) \<Rightarrow>
          if bits_in_accumulator > 0
          then
            let remaining_bits_in_byte = 8 - bits_in_accumulator;
                eos_prefix_mask = 2 ^ remaining_bits_in_byte - 1;
                eos_prefix = drop_bit (30 - remaining_bits_in_byte) HUFFMAN_EOS AND eos_prefix_mask;
                acc' = take_bit 64 (push_bit remaining_bits_in_byte acc) OR eos_prefix
            in (encoded_data @ [of_nat (acc' AND 0xFF)], HuffmanError_OK)
          else (encoded_data, HuffmanError_OK))"

subsection \<open>get_huffman_encoded_length\<close>

fun total_bits_loop :: "byte list \<Rightarrow> nat \<Rightarrow> nat option" where
  "total_bits_loop [] total_bits = Some total_bits"
| "total_bits_loop (ch # input) total_bits =
     (case HUFFMAN_CODES_find ch of
        None \<Rightarrow> None
      | Some (code, num_bits) \<Rightarrow> total_bits_loop input (total_bits + num_bits))"

text \<open>\<open>None\<close> stands for the return value \<open>std::string::npos\<close>.\<close>

definition get_huffman_encoded_length :: "byte list \<Rightarrow> nat option" where
  "get_huffman_encoded_length input =
     (case total_bits_loop input 0 of
        None \<Rightarrow> None
      | Some total_bits \<Rightarrow> Some ((total_bits + 7) div 8))"

subsection \<open>The decoding tree\<close>

datatype HuffmanDecodeNode =
  HuffmanDecodeNode
    (child0: "HuffmanDecodeNode option")
    (child1: "HuffmanDecodeNode option")
    (symbol: "byte option")
    (is_eos_prefix: bool)

definition new_node :: HuffmanDecodeNode where
  "new_node = HuffmanDecodeNode None None None False"

definition children :: "HuffmanDecodeNode \<Rightarrow> bool \<Rightarrow> HuffmanDecodeNode option" where
  "children n b = (if b then child1 n else child0 n)"

text \<open>
  The bits \<open>(code >> j) & 1\<close> for \<open>j = bits - 1\<close> down to 0, in this order.
\<close>

fun code_bits :: "nat \<Rightarrow> nat \<Rightarrow> bool list" where
  "code_bits code 0 = []"
| "code_bits code (Suc j) = ((code div 2 ^ j) mod 2 = 1) # code_bits code j"

text \<open>
  The inner loop of \<open>initialize_huffman_decode_tree\<close> for symbol \<open>i\<close>: walk down from
  \<open>current\<close>, creating the missing children, marking every node on the path of symbol
  256 as a prefix of EOS, and store the symbol at the end of the path unless it is 256.
\<close>

definition child_or_new :: "HuffmanDecodeNode option \<Rightarrow> HuffmanDecodeNode" where
  "child_or_new c = (case c of None \<Rightarrow> new_node | Some n \<Rightarrow> n)"

definition mark_eos_prefix :: "nat \<Rightarrow> HuffmanDecodeNode \<Rightarrow> HuffmanDecodeNode" where
  "mark_eos_prefix i n =
     (if i = 256 then HuffmanDecodeNode (child0 n) (child1 n) (symbol n) True else n)"

fun insert_code :: "nat \<Rightarrow> bool list \<Rightarrow> HuffmanDecodeNode \<Rightarrow> HuffmanDecodeNode" where
  "insert_code i [] (HuffmanDecodeNode c0 c1 s e) =
     (if i \<noteq> 256 then HuffmanDecodeNode c0 c1 (Some (of_nat i)) e
      else HuffmanDecodeNode c0 c1 s e)"
| "insert_code i (b # bs) (HuffmanDecodeNode c0 c1 s e) =
     (if b
      then HuffmanDecodeNode c0
             (Some (insert_code i bs (mark_eos_prefix i (child_or_new c1)))) s e
      else HuffmanDecodeNode
             (Some (insert_code i bs (mark_eos_prefix i (child_or_new c0)))) c1 s e)"

text \<open>
  The body of the outer loop \<open>for (uint32_t i = 0; i <= 256; ++i)\<close>: symbol 256 takes
  \<open>HUFFMAN_EOS\<close> with 30 bits, a symbol missing from the table is skipped.
\<close>

definition initialize_step :: "nat \<Rightarrow> HuffmanDecodeNode \<Rightarrow> HuffmanDecodeNode" where
  "initialize_step i root =
     (if i = 256 then insert_code i (code_bits HUFFMAN_EOS 30) root
      else if i < length HUFFMAN_CODES
           then insert_code i (code_bits (fst (HUFFMAN_CODES ! i)) (snd (HUFFMAN_CODES ! i))) root
           else root)"

function initialize_loop :: "nat \<Rightarrow> HuffmanDecodeNode \<Rightarrow> HuffmanDecodeNode" where
  "initialize_loop i root =
     (if i \<le> 256 then initialize_loop (i + 1) (initialize_step i root) else root)"
  by pat_completeness auto
termination
  by (relation "measure (\<lambda>(i, root). 257 - i)") auto

declare initialize_loop.simps [simp del]

definition HUFFMAN_DECODE_TREE_ROOT_INSTANCE :: HuffmanDecodeNode where
  "HUFFMAN_DECODE_TREE_ROOT_INSTANCE = initialize_loop 0 new_node"

subsection \<open>huffman_decode\<close>

text \<open>
  The state of the two nested loops: the decoded string, the current node, and whether
  the current node is the root (the source compares pointers; no walk ever comes back to
  the root except by the reset after a symbol).  \<open>Inl\<close> is an early \<open>return\<close>.
\<close>

type_synonym decode_state = "byte list \<times> HuffmanDecodeNode \<times> bool"

fun huffman_decode_bits ::
  "nat \<Rightarrow> bool list \<Rightarrow> bool \<Rightarrow> decode_state \<Rightarrow> (byte list \<times> HuffmanError) + decode_state" where
  "huffman_decode_bits max_output_length [] last_byte st = Inr st"
| "huffman_decode_bits max_output_length (b # bs) last_byte (decoded_string, current_node, at_root) =
     (if length decoded_string > max_output_length
      then Inl (decoded_string, HuffmanError_BUFFER_TOO_SMALL)
      else case children current_node b of
        None \<Rightarrow> Inl (decoded_string, HuffmanError_INVALID_INPUT)
      | Some node \<Rightarrow>
          (case symbol node of
             Some decoded_symbol \<Rightarrow>
               huffman_decode_bits max_output_length bs last_byte
                 (decoded_string @ [decoded_symbol], HUFFMAN_DECODE_TREE_ROOT_INSTANCE, True)
           | None \<Rightarrow>
               if last_byte \<and> is_eos_prefix node
               then huffman_decode_bits max_output_length bs last_byte (decoded_string, node, False)
               else if last_byte \<and> \<not> is_eos_prefix node
               then Inl (decoded_string, HuffmanError_INVALID_PADDING)
               else huffman_decode_bits max_output_length bs last_byte (decoded_string, node, False)))"

fun huffman_decode_bytes ::
  "nat \<Rightarrow> byte list \<Rightarrow> decode_state \<Rightarrow> (byte list \<times> HuffmanError) + decode_state" where
  "huffman_decode_bytes max_output_length [] st = Inr st"
| "huffman_decode_bytes max_output_length (b # input) st =
     (case huffman_decode_bits max_output_length (code_bits (unat b) 8) (input = []) st of
        Inl r \<Rightarrow> Inl r
      | Inr st' \<Rightarrow> huffman_decode_bytes max_output_length input st')"

definition huffman_decode :: "byte list \<Rightarrow> nat \<Rightarrow> byte list \<times> HuffmanError" where
  "huffman_decode input max_output_length =
     (case huffman_decode_bytes max_output_length input
             ([], HUFFMAN_DECODE_TREE_ROOT_INSTANCE, True) of
        Inl r \<Rightarrow> r
      | Inr (decoded_string, current_node, at_root) \<Rightarrow>
          if \<not> at_root \<and> \<not> is_eos_prefix current_node
          then (decoded_string, HuffmanError_INVALID_PADDING)
          else (decoded_string, HuffmanError_OK))"

text \<open>The default argument of \<open>huffman_decode\<close> in hpack_huffman.h.\<close>

definition default_max_output_length :: nat where
  "default_max_output_length = 16384 * 4"


section \<open>HPACK decoder and encoder state (hpack_decoder.h, hpack_decoder.cpp, hpack_encoder.cpp)\<close>

text \<open>
  \<open>HttpHeader\<close> and \<open>DynamicTableEntry\<close>.  The fields carry a prefix because \<open>value\<close>
  and \<open>size\<close> are taken in Isabelle.  \<open>e_size\<close> is a \<open>size_t\<close>, set by the constructor
  to \<open>name.length() + value.length() + 32\<close>.
\<close>

record HttpHeader =
  h_name :: "byte list"
  h_value :: "byte list"
  h_sensitive :: bool

record DynamicTableEntry =
  e_name :: "byte list"
  e_value :: "byte list"
  e_size :: nat

definition DynamicTableEntry :: "byte list \<Rightarrow> byte list \<Rightarrow> DynamicTableEntry" where
  "DynamicTableEntry n v = \<lparr>e_name = n, e_value = v, e_size = length n + length v + 32\<rparr>"

text \<open>
  The decoder (member names without their trailing underscore): the deque
  \<open>dynamic_table\<close> is a list whose head is the front of the
  deque (the newest entry); the two sizes are \<open>uint32_t\<close>, kept below \<open>2 ^ 32\<close> by
  \<open>u32\<close> wherever the source computes in 32 bits.
\<close>

definition u32 :: "nat \<Rightarrow> nat" where
  "u32 n = n mod 2 ^ 32"

text \<open>\<open>a - b\<close> on \<open>uint32_t\<close> values.\<close>

definition u32_sub :: "nat \<Rightarrow> nat \<Rightarrow> nat" where
  "u32_sub a b = (a + 2 ^ 32 - u32 b) mod 2 ^ 32"

record HpackDecoder =
  dynamic_table :: "DynamicTableEntry list"
  current_dynamic_table_size :: nat
  max_dynamic_table_size :: nat

definition DEFAULT_DYNAMIC_TABLE_SIZE :: nat where
  "DEFAULT_DYNAMIC_TABLE_SIZE = 4096"

text \<open>The constructor \<open>HpackDecoder(max_dynamic_table_size)\<close>.\<close>

definition new_HpackDecoder :: "nat \<Rightarrow> HpackDecoder" where
  "new_HpackDecoder max_size =
     \<lparr>dynamic_table = [], current_dynamic_table_size = 0,
      max_dynamic_table_size = max_size\<rparr>"

subsection \<open>Dynamic table management\<close>

text \<open>
  \<open>evict_from_dynamic_table\<close>: the sum \<open>current_dynamic_table_size + required_space\<close>
  is a 32-bit sum; \<open>back()\<close> is the last element of the list.
\<close>

function evict_from_dynamic_table :: "HpackDecoder \<Rightarrow> nat \<Rightarrow> HpackDecoder" where
  "evict_from_dynamic_table d required_space =
     (if u32 (current_dynamic_table_size d + required_space) > max_dynamic_table_size d
         \<and> dynamic_table d \<noteq> []
      then evict_from_dynamic_table
             (d\<lparr>current_dynamic_table_size :=
                   u32_sub (current_dynamic_table_size d) (e_size (last (dynamic_table d))),
                 dynamic_table := butlast (dynamic_table d)\<rparr>)
             required_space
      else d)"
  by pat_completeness auto
termination
  by (relation "measure (\<lambda>(d, r). length (dynamic_table d))") auto

declare evict_from_dynamic_table.simps [simp del]

definition add_to_dynamic_table :: "HpackDecoder \<Rightarrow> HttpHeader \<Rightarrow> HpackDecoder" where
  "add_to_dynamic_table d header =
     (let entry_size = length (h_name header) + length (h_value header) + 32
      in if entry_size > max_dynamic_table_size d
         then d\<lparr>dynamic_table := [], current_dynamic_table_size := 0\<rparr>
         else
           let d' = evict_from_dynamic_table d (u32 entry_size)
           in d'\<lparr>dynamic_table := DynamicTableEntry (h_name header) (h_value header) # dynamic_table d',
                 current_dynamic_table_size := u32 (current_dynamic_table_size d' + u32 entry_size)\<rparr>)"

definition set_max_dynamic_table_size :: "HpackDecoder \<Rightarrow> nat \<Rightarrow> HpackDecoder" where
  "set_max_dynamic_table_size d max_size =
     evict_from_dynamic_table (d\<lparr>max_dynamic_table_size := max_size\<rparr>) 0"

text \<open>
  The encoder keeps the same three fields (its capacity is called
  \<open>own_max_dynamic_table_size\<close>) and a fourth, \<open>peer_max_dynamic_table_size\<close>.
\<close>

record HpackEncoder =
  enc_dynamic_table :: "DynamicTableEntry list"
  enc_current_dynamic_table_size :: nat
  own_max_dynamic_table_size :: nat
  peer_max_dynamic_table_size :: nat

definition new_HpackEncoder :: "nat \<Rightarrow> HpackEncoder" where
  "new_HpackEncoder max_size =
     \<lparr>enc_dynamic_table = [], enc_current_dynamic_table_size = 0,
      own_max_dynamic_table_size = max_size,
      peer_max_dynamic_table_size = DEFAULT_DYNAMIC_TABLE_SIZE\<rparr>"

function enc_evict_from_dynamic_table :: "HpackEncoder \<Rightarrow> nat \<Rightarrow> HpackEncoder" where
  "enc_evict_from_dynamic_table c required_space =
     (if u32 (enc_current_dynamic_table_size c + required_space) > own_max_dynamic_table_size c
         \<and> enc_dynamic_table c \<noteq> []
      then enc_evict_from_dynamic_table
             (c\<lparr>enc_current_dynamic_table_size :=
                   u32_sub (enc_current_dynamic_table_size c) (e_size (last (enc_dynamic_table c))),
                 enc_dynamic_table := butlast (enc_dynamic_table c)\<rparr>)
             required_space
      else c)"
  by pat_completeness auto
termination
  by (relation "measure (\<lambda>(c, r). length (enc_dynamic_table c))") auto

declare enc_evict_from_dynamic_table.simps [simp del]

definition enc_add_to_dynamic_table :: "HpackEncoder \<Rightarrow> HttpHeader \<Rightarrow> HpackEncoder" where
  "enc_add_to_dynamic_table c header =
     (let entry_size = length (h_name header) + length (h_value header) + 32
      in if entry_size > own_max_dynamic_table_size c
         then c\<lparr>enc_dynamic_table := [], enc_current_dynamic_table_size := 0\<rparr>
         else
           let c' = enc_evict_from_dynamic_table c (u32 entry_size)
           in c'\<lparr>enc_dynamic_table :=
                   DynamicTableEntry (h_name header) (h_value header) # enc_dynamic_table c',
                 enc_current_dynamic_table_size :=
                   u32 (enc_current_dynamic_table_size c'
                        + u32 (e_size (DynamicTableEntry (h_name header) (h_value header))))\<rparr>)"

text \<open>
  \<open>set_own_max_dynamic_table_size\<close> returns whether the size changed and leaves the
  encoder updated.
\<close>

definition set_own_max_dynamic_table_size :: "HpackEncoder \<Rightarrow> nat \<Rightarrow> bool \<times> HpackEncoder" where
  "set_own_max_dynamic_table_size c max_size =
     (own_max_dynamic_table_size c \<noteq> max_size,
      enc_evict_from_dynamic_table (c\<lparr>own_max_dynamic_table_size := max_size\<rparr>) 0)"

subsection \<open>The static table (hpack_static_table.cpp)\<close>

definition str :: "string \<Rightarrow> byte list" where
  "str s = map of_char s"

definition STATIC_TABLE :: "(byte list \<times> byte list) list" where
  "STATIC_TABLE = [
    (str '':authority'', str ''''),
    (str '':method'', str ''GET''),
    (str '':method'', str ''POST''),
    (str '':path'', str ''/''),
    (str '':path'', str ''/index.html''),
    (str '':scheme'', str ''http''),
    (str '':scheme'', str ''https''),
    (str '':status'', str ''200''),
    (str '':status'', str ''204''),
    (str '':status'', str ''206''),
    (str '':status'', str ''304''),
    (str '':status'', str ''400''),
    (str '':status'', str ''404''),
    (str '':status'', str ''500''),
    (str ''accept-charset'', str ''''),
    (str ''accept-encoding'', str ''gzip, deflate''),
    (str ''accept-language'', str ''''),
    (str ''accept-ranges'', str ''''),
    (str ''accept'', str ''''),
    (str ''access-control-allow-origin'', str ''''),
    (str ''age'', str ''''),
    (str ''allow'', str ''''),
    (str ''authorization'', str ''''),
    (str ''cache-control'', str ''''),
    (str ''content-disposition'', str ''''),
    (str ''content-encoding'', str ''''),
    (str ''content-language'', str ''''),
    (str ''content-length'', str ''''),
    (str ''content-location'', str ''''),
    (str ''content-range'', str ''''),
    (str ''content-type'', str ''''),
    (str ''cookie'', str ''''),
    (str ''date'', str ''''),
    (str ''etag'', str ''''),
    (str ''expect'', str ''''),
    (str ''expires'', str ''''),
    (str ''from'', str ''''),
    (str ''host'', str ''''),
    (str ''if-match'', str ''''),
    (str ''if-modified-since'', str ''''),
    (str ''if-none-match'', str ''''),
    (str ''if-range'', str ''''),
    (str ''if-unmodified-since'', str ''''),
    (str ''last-modified'', str ''''),
    (str ''link'', str ''''),
    (str ''location'', str ''''),
    (str ''max-forwards'', str ''''),
    (str ''proxy-authenticate'', str ''''),
    (str ''proxy-authorization'', str ''''),
    (str ''range'', str ''''),
    (str ''referer'', str ''''),
    (str ''refresh'', str ''''),
    (str ''retry-after'', str ''''),
    (str ''server'', str ''''),
    (str ''set-cookie'', str ''''),
    (str ''strict-transport-security'', str ''''),
    (str ''transfer-encoding'', str ''''),
    (str ''user-agent'', str ''''),
    (str ''vary'', str ''''),
    (str ''via'', str ''''),
    (str ''www-authenticate'', str '''')
  ]"

definition get_static_header :: "nat \<Rightarrow> HttpHeader option" where
  "get_static_header index =
     (if index = 0 \<or> index > length STATIC_TABLE then None
      else case STATIC_TABLE ! (index - 1) of
             (n, v) \<Rightarrow> Some \<lparr>h_name = n, h_value = v, h_sensitive = False\<rparr>)"

definition get_header_from_tables :: "HpackDecoder \<Rightarrow> nat \<Rightarrow> HttpHeader option" where
  "get_header_from_tables d index =
     (if index = 0 then None
      else if index \<le> length STATIC_TABLE then get_static_header index
      else
        let dynamic_index = index - length STATIC_TABLE
        in if dynamic_index > length (dynamic_table d) then None
           else Some \<lparr>h_name = e_name (dynamic_table d ! (dynamic_index - 1)),
                      h_value = e_value (dynamic_table d ! (dynamic_index - 1)),
                      h_sensitive = False\<rparr>)"


subsection \<open>HpackDecoder::decode_string\<close>

text \<open>
  The result is the string, the error and the span as the function leaves it.  Any
  Huffman failure becomes \<open>HpackError::INVALID_HUFFMAN_CODE\<close>.
\<close>

definition decode_string :: "byte list \<Rightarrow> byte list \<times> HpackError \<times> byte list" where
  "decode_string data =
     (case data of
        [] \<Rightarrow> ([], HpackError_BUFFER_TOO_SMALL, [])
      | b0 # _ \<Rightarrow>
          let huffman_encoded = (b0 AND 0x80 \<noteq> 0) in
          case decode_integer data 7 of
            (len, err_len, data1) \<Rightarrow>
              if err_len \<noteq> HpackError_OK then ([], err_len, data1)
              else if len > length data1 then ([], HpackError_BUFFER_TOO_SMALL, data1)
              else
                let string_data = take len data1; data2 = drop len data1 in
                if huffman_encoded
                then (case huffman_decode string_data default_max_output_length of
                        (decoded_str, huff_err) \<Rightarrow>
                          if huff_err \<noteq> HuffmanError_OK
                          then ([], HpackError_INVALID_HUFFMAN_CODE, data2)
                          else (decoded_str, HpackError_OK, data2))
                else (string_data, HpackError_OK, data2))"

subsection \<open>HpackEncoder::encode_string\<close>

definition encode_string :: "byte list \<Rightarrow> byte list \<Rightarrow> bool \<Rightarrow> byte list" where
  "encode_string buffer s try_huffman =
     (let (huffman_encoded_bytes, use_huffman_actual) =
            (if try_huffman
             then (case huffman_encode s of
                     (encoded_res, huff_err) \<Rightarrow>
                       if huff_err = HuffmanError_OK \<and> length encoded_res < length s
                       then (encoded_res, True) else ([], False))
             else ([], False));
          prefix = (if use_huffman_actual then 0x80 else 0x00);
          len = (if use_huffman_actual then length huffman_encoded_bytes else length s)
      in encode_integer buffer prefix 7 len
           @ (if use_huffman_actual then huffman_encoded_bytes else s))"

subsection \<open>HpackDecoder::decode\<close>

text \<open>
  The part that the three literal representations share in the source (written out
  three times there): the name index with the given prefix width, the name (a string
  when the index is 0, the name of the indexed entry otherwise) and the value.
\<close>

definition decode_literal ::
  "HpackDecoder \<Rightarrow> byte list \<Rightarrow> nat \<Rightarrow> bool \<Rightarrow> HttpHeader \<times> HpackError \<times> byte list" where
  "decode_literal d data prefix_bits sens =
     (let none = \<lparr>h_name = [], h_value = [], h_sensitive = False\<rparr> in
      case decode_integer data prefix_bits of
        (index, err_idx, data1) \<Rightarrow>
          if err_idx \<noteq> HpackError_OK then (none, err_idx, data1)
          else
            case (if index = 0 then decode_string data1
                  else case get_header_from_tables d index of
                         None \<Rightarrow> ([], HpackError_INDEX_OUT_OF_BOUNDS, data1)
                       | Some indexed_header \<Rightarrow> (h_name indexed_header, HpackError_OK, data1)) of
              (name_str, err_name, data2) \<Rightarrow>
                if err_name \<noteq> HpackError_OK then (none, err_name, data2)
                else
                  case decode_string data2 of
                    (value_str, err_val, data3) \<Rightarrow>
                      if err_val \<noteq> HpackError_OK then (none, err_val, data3)
                      else (\<lparr>h_name = name_str, h_value = value_str, h_sensitive = sens\<rparr>,
                            HpackError_OK, data3))"

text \<open>
  One pass through the body of \<open>while (!data.empty())\<close>, for a non-empty span: the
  decoder, the headers decoded so far, \<open>error_status\<close> and the span afterwards.
\<close>

definition decode_field ::
  "HpackDecoder \<Rightarrow> HttpHeader list \<Rightarrow> byte list
   \<Rightarrow> HpackDecoder \<times> HttpHeader list \<times> HpackError \<times> byte list" where
  "decode_field d headers data =
     (let first_byte = hd data in
      if first_byte AND 0x80 = 0x80 then
        (case decode_integer data 7 of
           (index, err, data1) \<Rightarrow>
             if err \<noteq> HpackError_OK then (d, headers, err, data1)
             else if index = 0 then (d, headers, HpackError_INDEX_OUT_OF_BOUNDS, data1)
             else case get_header_from_tables d index of
                    None \<Rightarrow> (d, headers, HpackError_INDEX_OUT_OF_BOUNDS, data1)
                  | Some header \<Rightarrow> (d, headers @ [header], HpackError_OK, data1))
      else if first_byte AND 0xC0 = 0x40 then
        (case decode_literal d data 6 False of
           (header, err, data1) \<Rightarrow>
             if err \<noteq> HpackError_OK then (d, headers, err, data1)
             else (add_to_dynamic_table d header, headers @ [header], HpackError_OK, data1))
      else if first_byte AND 0xF0 = 0x00 then
        (case decode_literal d data 4 False of
           (header, err, data1) \<Rightarrow>
             if err \<noteq> HpackError_OK then (d, headers, err, data1)
             else (d, headers @ [header], HpackError_OK, data1))
      else if first_byte AND 0xF0 = 0x10 then
        (case decode_literal d data 4 True of
           (header, err, data1) \<Rightarrow>
             if err \<noteq> HpackError_OK then (d, headers, err, data1)
             else (d, headers @ [header], HpackError_OK, data1))
      else if first_byte AND 0xE0 = 0x20 then
        (case decode_integer data 5 of
           (sz, err, data1) \<Rightarrow>
             if err \<noteq> HpackError_OK then (d, headers, err, data1)
             else if headers \<noteq> [] then (d, headers, HpackError_COMPRESSION_ERROR, data1)
             else if sz > DEFAULT_DYNAMIC_TABLE_SIZE
             then (d, headers, HpackError_COMPRESSION_ERROR, data1)
             else (set_max_dynamic_table_size d (u32 sz), headers, HpackError_OK, data1))
      else (d, headers, HpackError_COMPRESSION_ERROR, data))"

text \<open>Every successful pass consumes at least the first byte; the loop ends.\<close>

lemma decode_integer_loop_length:
  "length (snd (snd (decode_integer_loop data v m))) \<le> length data"
  by (induction data v m rule: decode_integer_loop.induct) (auto simp: Let_def le_SucI)

lemma decode_integer_length:
  "data \<noteq> [] \<Longrightarrow> length (snd (snd (decode_integer data n))) < length data"
  using decode_integer_loop_length [of "tl data"]
  by (cases data) (auto simp: decode_integer_def Let_def less_Suc_eq_le)

lemma decode_string_length:
  "length (snd (snd (decode_string data))) \<le> length data"
proof (cases data)
  case Nil
  then show ?thesis by (simp add: decode_string_def)
next
  case (Cons b rest)
  then have "length (snd (snd (decode_integer data 7))) < length data"
    by (intro decode_integer_length) simp
  then show ?thesis
    using Cons by (auto simp: decode_string_def Let_def split: prod.splits)
qed

lemma decode_literal_length:
  assumes "data \<noteq> []"
  shows "length (snd (snd (decode_literal d data n s))) < length data"
proof -
  obtain index err_idx data1 where i: "decode_integer data n = (index, err_idx, data1)"
    by (cases "decode_integer data n") auto
  then have l1: "length data1 < length data"
    using decode_integer_length [OF assms, of n] by simp
  have l2: "length (snd (snd (decode_string x))) \<le> length x" for x
    by (rule decode_string_length)
  show ?thesis
    using l1 l2 [of data1] l2 [of "snd (snd (decode_string data1))"] l2 [of data1]
    by (auto simp: decode_literal_def i Let_def split: prod.splits option.splits if_splits
        dest: le_less_trans)
qed

lemma decode_field_length:
  assumes "data \<noteq> []" and "decode_field d headers data = (d', headers', HpackError_OK, data')"
  shows "length data' < length data"
proof -
  have a: "length (snd (snd (decode_integer data n))) < length data" for n
    using assms(1) by (rule decode_integer_length)
  have b: "length (snd (snd (decode_literal d data n s))) < length data" for n s
    using assms(1) by (rule decode_literal_length)
  show ?thesis
    using assms(2) a [of 7] a [of 5] b [of 6 False] b [of 4 False] b [of 4 True]
    by (auto simp: decode_field_def Let_def split: prod.splits option.splits if_splits)
qed

function decode_loop ::
  "HpackDecoder \<Rightarrow> HttpHeader list \<Rightarrow> byte list \<Rightarrow> HpackDecoder \<times> HttpHeader list \<times> HpackError" where
  "decode_loop d headers data =
     (if data = [] then (d, headers, HpackError_OK)
      else case decode_field d headers data of
             (d', headers', error_status, data') \<Rightarrow>
               if error_status \<noteq> HpackError_OK then (d', headers', error_status)
               else decode_loop d' headers' data')"
  by pat_completeness auto
termination
  by (relation "measure (\<lambda>(d, headers, data). length data)")
     (auto dest: decode_field_length [OF _ sym])

declare decode_loop.simps [simp del]

text \<open>
  \<open>HpackDecoder::decode\<close>: the headers, the error, and the decoder afterwards.
\<close>

definition decode :: "HpackDecoder \<Rightarrow> byte list \<Rightarrow> HttpHeader list \<times> HpackError \<times> HpackDecoder" where
  "decode d data =
     (case decode_loop d [] data of
        (d', headers, error_status) \<Rightarrow> (headers, error_status, d'))"


section \<open>Streams (http2_stream.h, http2_stream.cpp)\<close>

datatype StreamState =
    IDLE | RESERVED_LOCAL | RESERVED_REMOTE | OPEN | HALF_CLOSED_LOCAL | HALF_CLOSED_REMOTE
  | CLOSED

text \<open>
  \<open>int32_t\<close> values are integers; \<open>i32\<close> is the conversion to \<open>int32_t\<close> (two's
  complement, the value modulo \<open>2 ^ 32\<close> that lies between \<open>- 2 ^ 31\<close> and
  \<open>2 ^ 31 - 1\<close>), written wherever the source converts or computes in 32 bits.
  \<open>uint32_of\<close> is the conversion of an \<open>int32_t\<close> to \<open>uint32_t\<close>.
\<close>

definition i32 :: "int \<Rightarrow> int" where
  "i32 x = (x + 2 ^ 31) mod 2 ^ 32 - 2 ^ 31"

definition uint32_of :: "int \<Rightarrow> nat" where
  "uint32_of x = nat (x mod 2 ^ 32)"

text \<open>The members \<open>id_\<close>, \<open>state_\<close>, \<open>local_window_size_\<close>, \<open>remote_window_size_\<close>.\<close>

record Http2Stream =
  st_id :: nat
  st_state :: StreamState
  local_window_size :: int
  remote_window_size :: int

definition new_Http2Stream :: "nat \<Rightarrow> nat \<Rightarrow> nat \<Rightarrow> Http2Stream" where
  "new_Http2Stream stream_id initial_local_window initial_remote_window =
     \<lparr>st_id = stream_id, st_state = IDLE,
      local_window_size = i32 (int initial_local_window),
      remote_window_size = i32 (int initial_remote_window)\<rparr>"

text \<open>
  \<open>update_remote_window(window_size_t increment)\<close>: the parameter is a \<open>uint32_t\<close>; the
  overflow test adds it to the window in 64 bits; the addition itself converts it back to
  \<open>int32_t\<close>.  The result is the returned flag and the stream.
\<close>

definition update_remote_window :: "Http2Stream \<Rightarrow> nat \<Rightarrow> bool \<times> Http2Stream" where
  "update_remote_window s increment =
     (if increment = 0 then (True, s)
      else if remote_window_size s + int increment > 2 ^ 31 - 1 then (False, s)
      else (True, s\<lparr>remote_window_size := i32 (remote_window_size s + i32 (int increment))\<rparr>))"

definition record_data_sent :: "Http2Stream \<Rightarrow> nat \<Rightarrow> Http2Stream" where
  "record_data_sent s data_size =
     (if data_size = 0 then s
      else s\<lparr>remote_window_size := i32 (remote_window_size s - i32 (int data_size))\<rparr>)"

definition transition_to_half_closed_local :: "Http2Stream \<Rightarrow> Http2Stream" where
  "transition_to_half_closed_local s =
     (if st_state s = OPEN \<or> st_state s = RESERVED_LOCAL then s\<lparr>st_state := HALF_CLOSED_LOCAL\<rparr>
      else if st_state s = HALF_CLOSED_REMOTE then s\<lparr>st_state := CLOSED\<rparr>
      else s)"

definition transition_to_closed :: "Http2Stream \<Rightarrow> Http2Stream" where
  "transition_to_closed s =
     s\<lparr>st_state := CLOSED, local_window_size := 0, remote_window_size := 0\<rparr>"

section \<open>Frames (http2_types.h, http2_frame.h)\<close>

text \<open>
  \<open>FrameType\<close> and \<open>ErrorCode\<close> are enumerations over \<open>uint8_t\<close> and \<open>uint32_t\<close>; the
  parser casts arbitrary wire values to them, so they are the underlying numbers, with
  the enumerators as constants.
\<close>

type_synonym FrameType = byte
type_synonym ErrorCode = nat

definition FrameType_DATA :: FrameType where "FrameType_DATA = 0x0"
definition FrameType_HEADERS :: FrameType where "FrameType_HEADERS = 0x1"
definition FrameType_PRIORITY :: FrameType where "FrameType_PRIORITY = 0x2"
definition FrameType_RST_STREAM :: FrameType where "FrameType_RST_STREAM = 0x3"
definition FrameType_SETTINGS :: FrameType where "FrameType_SETTINGS = 0x4"
definition FrameType_PUSH_PROMISE :: FrameType where "FrameType_PUSH_PROMISE = 0x5"
definition FrameType_PING :: FrameType where "FrameType_PING = 0x6"
definition FrameType_GOAWAY :: FrameType where "FrameType_GOAWAY = 0x7"
definition FrameType_WINDOW_UPDATE :: FrameType where "FrameType_WINDOW_UPDATE = 0x8"
definition FrameType_CONTINUATION :: FrameType where "FrameType_CONTINUATION = 0x9"

definition ErrorCode_NO_ERROR :: ErrorCode where "ErrorCode_NO_ERROR = 0x0"
definition ErrorCode_PROTOCOL_ERROR :: ErrorCode where "ErrorCode_PROTOCOL_ERROR = 0x1"
definition ErrorCode_INTERNAL_ERROR :: ErrorCode where "ErrorCode_INTERNAL_ERROR = 0x2"
definition ErrorCode_FLOW_CONTROL_ERROR :: ErrorCode where "ErrorCode_FLOW_CONTROL_ERROR = 0x3"
definition ErrorCode_STREAM_CLOSED :: ErrorCode where "ErrorCode_STREAM_CLOSED = 0x5"
definition ErrorCode_FRAME_SIZE_ERROR :: ErrorCode where "ErrorCode_FRAME_SIZE_ERROR = 0x6"
definition ErrorCode_COMPRESSION_ERROR :: ErrorCode where "ErrorCode_COMPRESSION_ERROR = 0x9"

definition DEFAULT_MAX_FRAME_SIZE :: nat where "DEFAULT_MAX_FRAME_SIZE = 16384"
definition MAX_ALLOWED_FRAME_SIZE :: nat where "MAX_ALLOWED_FRAME_SIZE = 16777215"
definition MAX_ALLOWED_WINDOW_SIZE :: nat where "MAX_ALLOWED_WINDOW_SIZE = 2 ^ 31 - 1"

definition END_STREAM_FLAG :: byte where "END_STREAM_FLAG = 0x1"
definition ACK_FLAG :: byte where "ACK_FLAG = 0x1"
definition END_HEADERS_FLAG :: byte where "END_HEADERS_FLAG = 0x4"
definition PADDED_FLAG :: byte where "PADDED_FLAG = 0x8"
definition PRIORITY_FLAG :: byte where "PRIORITY_FLAG = 0x20"

text \<open>\<open>header.flags & FLAG\<close> converted to \<open>bool\<close>.\<close>

definition has_flag :: "byte \<Rightarrow> byte \<Rightarrow> bool" where
  "has_flag flags flag = (flags AND flag \<noteq> 0)"

record FrameHeader =
  fh_length :: nat
  fh_type :: FrameType
  fh_flags :: byte
  fh_stream_id :: nat

text \<open>\<open>FrameHeader::get_stream_id\<close>: the stream id without the reserved bit.\<close>

definition get_stream_id :: "FrameHeader \<Rightarrow> nat" where
  "get_stream_id header = fh_stream_id header mod 2 ^ 31"

text \<open>A default-constructed header (its members are what the code then assigns).\<close>

definition empty_FrameHeader :: FrameHeader where
  "empty_FrameHeader = \<lparr>fh_length = 0, fh_type = 0, fh_flags = 0, fh_stream_id = 0\<rparr>"

record DataFrame =
  df_header :: FrameHeader
  df_pad_length :: "byte option"
  df_data :: "byte list"

record HeadersFrame =
  hf_header :: FrameHeader
  hf_pad_length :: "byte option"
  hf_exclusive_dependency :: "bool option"
  hf_stream_dependency :: "nat option"
  hf_weight :: "byte option"
  hf_headers :: "HttpHeader list"

record PriorityFrame =
  pf_header :: FrameHeader
  pf_exclusive_dependency :: bool
  pf_stream_dependency :: nat
  pf_weight :: byte

record RstStreamFrame =
  rf_header :: FrameHeader
  rf_error_code :: ErrorCode

record Setting =
  set_identifier :: nat
  setting_value :: nat

record SettingsFrame =
  sf_header :: FrameHeader
  sf_settings :: "Setting list"

record PushPromiseFrame =
  ppf_header :: FrameHeader
  ppf_pad_length :: "byte option"
  ppf_promised_stream_id :: nat
  ppf_headers :: "HttpHeader list"

record PingFrame =
  pgf_header :: FrameHeader
  pgf_opaque_data :: "byte list"

record GoAwayFrame =
  gf_header :: FrameHeader
  gf_last_stream_id :: nat
  gf_error_code :: ErrorCode
  gf_additional_debug_data :: "byte list"

record WindowUpdateFrame =
  wf_header :: FrameHeader
  wf_window_size_increment :: nat

record ContinuationFrame =
  cf_header :: FrameHeader
  cf_header_block_fragment :: "byte list"

text \<open>\<open>AnyHttp2Frame\<close>: the variant over the ten frame structures.\<close>

datatype AnyHttp2Frame =
    Data DataFrame
  | Headers HeadersFrame
  | Priority PriorityFrame
  | RstStream RstStreamFrame
  | Settings SettingsFrame
  | PushPromise PushPromiseFrame
  | Ping PingFrame
  | GoAway GoAwayFrame
  | WindowUpdate WindowUpdateFrame
  | Continuation ContinuationFrame

definition SETTINGS_HEADER_TABLE_SIZE :: nat where "SETTINGS_HEADER_TABLE_SIZE = 0x1"
definition SETTINGS_ENABLE_PUSH :: nat where "SETTINGS_ENABLE_PUSH = 0x2"
definition SETTINGS_MAX_CONCURRENT_STREAMS :: nat where "SETTINGS_MAX_CONCURRENT_STREAMS = 0x3"
definition SETTINGS_INITIAL_WINDOW_SIZE :: nat where "SETTINGS_INITIAL_WINDOW_SIZE = 0x4"
definition SETTINGS_MAX_FRAME_SIZE :: nat where "SETTINGS_MAX_FRAME_SIZE = 0x5"
definition SETTINGS_MAX_HEADER_LIST_SIZE :: nat where "SETTINGS_MAX_HEADER_LIST_SIZE = 0x6"

section \<open>Frame serializer (http2_frame_serializer.cpp)\<close>

definition write_uint24_big_endian :: "byte list \<Rightarrow> nat \<Rightarrow> byte list" where
  "write_uint24_big_endian buffer v =
     buffer @ [of_nat (v div 2 ^ 16 mod 256), of_nat (v div 2 ^ 8 mod 256), of_nat (v mod 256)]"

definition write_uint32_big_endian :: "byte list \<Rightarrow> nat \<Rightarrow> byte list" where
  "write_uint32_big_endian buffer v =
     buffer @ [of_nat (v div 2 ^ 24 mod 256), of_nat (v div 2 ^ 16 mod 256),
               of_nat (v div 2 ^ 8 mod 256), of_nat (v mod 256)]"

definition write_frame_header :: "byte list \<Rightarrow> FrameHeader \<Rightarrow> byte list" where
  "write_frame_header buffer header =
     write_uint32_big_endian
       (write_uint24_big_endian buffer (fh_length header) @ [fh_type header, fh_flags header])
       (fh_stream_id header mod 2 ^ 31)"

text \<open>\<open>pad_length.value_or(0)\<close>.\<close>

definition value_or_0 :: "byte option \<Rightarrow> nat" where
  "value_or_0 p = (case p of None \<Rightarrow> 0 | Some v \<Rightarrow> unat v)"

definition serialize_data_frame :: "DataFrame \<Rightarrow> byte list" where
  "serialize_data_frame frame =
     (let padded = has_flag (fh_flags (df_header frame)) PADDED_FLAG;
          payload_size = (if padded then 1 else 0) + length (df_data frame)
                         + (if padded then value_or_0 (df_pad_length frame) else 0);
          header_to_write = (df_header frame)\<lparr>fh_length := u32 payload_size\<rparr>
      in write_frame_header [] header_to_write
         @ (if padded then [of_nat (value_or_0 (df_pad_length frame))] else [])
         @ df_data frame
         @ (if padded \<and> value_or_0 (df_pad_length frame) > 0
            then replicate (value_or_0 (df_pad_length frame)) 0 else []))"

section \<open>Connection (http2_connection.h, http2_connection.cpp)\<close>

definition DEFAULT_HEADER_TABLE_SIZE :: nat where "DEFAULT_HEADER_TABLE_SIZE = 4096"
definition DEFAULT_INITIAL_WINDOW_SIZE :: nat where "DEFAULT_INITIAL_WINDOW_SIZE = 65535"

record ConnectionSettings =
  header_table_size :: nat
  enable_push :: bool
  max_concurrent_streams :: nat
  initial_window_size :: nat
  max_frame_size :: nat
  max_header_list_size :: nat

text \<open>
  The default member initialisers; \<open>uint32_t x = -1\<close> is \<open>2 ^ 32 - 1\<close>.
\<close>

definition default_ConnectionSettings :: ConnectionSettings where
  "default_ConnectionSettings =
     \<lparr>header_table_size = DEFAULT_HEADER_TABLE_SIZE, enable_push = True,
      max_concurrent_streams = 2 ^ 32 - 1, initial_window_size = DEFAULT_INITIAL_WINDOW_SIZE,
      max_frame_size = DEFAULT_MAX_FRAME_SIZE, max_header_list_size = 2 ^ 32 - 1\<rparr>"

text \<open>
  What the connection hands to its action callbacks, in the order of the calls:
  \<open>on_send_bytes_\<close>, \<open>on_send_rst_stream_\<close>, \<open>on_send_goaway_\<close>.  The callbacks are
  taken to be installed.
\<close>

datatype action =
    SendBytes "byte list"
  | SendRstStream nat ErrorCode
  | SendGoAway nat ErrorCode string

text \<open>
  The connection's members (without the trailing underscore).  \<open>streams\<close> is the
  \<open>std::map\<close> from stream id to stream; \<open>actions\<close> collects the calls to the action
  callbacks.  The parser that \<open>parser_\<close> points to is an object of its own
  (\<open>Http2Parser\<close> below).
\<close>

record Http2Connection =
  is_server :: bool
  streams :: "nat \<rightharpoonup> Http2Stream"
  next_client_stream_id :: nat
  next_server_stream_id :: nat
  last_processed_stream_id :: nat
  going_away :: bool
  last_peer_initiated_stream_id_in_goaway :: nat
  local_settings :: ConnectionSettings
  remote_settings :: ConnectionSettings
  hpack_decoder :: HpackDecoder
  hpack_encoder :: HpackEncoder
  local_connection_window_size :: int
  remote_connection_window_size :: int
  expected_continuation_stream_id :: "nat option"
  header_block_buffer :: "byte list"
  header_sequence_initiator_type :: "FrameType option"
  pending_header_initiator_frame :: "AnyHttp2Frame option"
  actions :: "action list"

text \<open>
  The constructor \<open>Http2Connection(is_server_connection)\<close>.  The encoder member is
  default-constructed and then given \<open>local_settings_.header_table_size\<close>.
\<close>

definition new_Http2Connection :: "bool \<Rightarrow> Http2Connection" where
  "new_Http2Connection is_server_connection =
     \<lparr>is_server = is_server_connection,
      streams = Map.empty,
      next_client_stream_id = 1,
      next_server_stream_id = 2,
      last_processed_stream_id = 0,
      going_away = False,
      last_peer_initiated_stream_id_in_goaway = 0,
      local_settings = default_ConnectionSettings,
      remote_settings = default_ConnectionSettings,
      hpack_decoder = new_HpackDecoder DEFAULT_HEADER_TABLE_SIZE,
      hpack_encoder =
        snd (set_own_max_dynamic_table_size (new_HpackEncoder DEFAULT_DYNAMIC_TABLE_SIZE)
               (header_table_size default_ConnectionSettings)),
      local_connection_window_size = i32 (int DEFAULT_INITIAL_WINDOW_SIZE),
      remote_connection_window_size = i32 (int DEFAULT_INITIAL_WINDOW_SIZE),
      expected_continuation_stream_id = None,
      header_block_buffer = [],
      header_sequence_initiator_type = None,
      pending_header_initiator_frame = None,
      actions = []\<rparr>"

subsection \<open>get_or_create_stream, get_stream\<close>

text \<open>The two exceptions that \<open>get_or_create_stream\<close> throws.\<close>

datatype exn = logic_error | runtime_error

text \<open>
  \<open>get_or_create_stream\<close> returns a reference into the map: here the connection
  afterwards and the stream that the reference designates.
\<close>

definition get_or_create_stream ::
  "Http2Connection \<Rightarrow> nat \<Rightarrow> exn + (Http2Connection \<times> Http2Stream)" where
  "get_or_create_stream c stream_id =
     (if stream_id = 0 then Inl logic_error
      else case streams c stream_id of
        Some s \<Rightarrow> Inr (c, s)
      | None \<Rightarrow>
          let initial_local_win = initial_window_size (remote_settings c);
              initial_remote_win = initial_window_size (local_settings c);
              client_initiated = (stream_id mod 2 \<noteq> 0);
              server_initiated = (stream_id mod 2 = 0);
              new_stream = new_Http2Stream stream_id initial_local_win initial_remote_win
          in if is_server c then
               (if client_initiated then
                  (if stream_id \<le> last_processed_stream_id c then Inl runtime_error
                   else Inr (c\<lparr>last_processed_stream_id := stream_id,
                                streams := (streams c)(stream_id \<mapsto> new_stream)\<rparr>, new_stream))
                else Inr (c\<lparr>streams := (streams c)(stream_id \<mapsto> new_stream)\<rparr>, new_stream))
             else
               (if server_initiated then
                  (if stream_id \<le> last_processed_stream_id c then Inl runtime_error
                   else Inr (c\<lparr>last_processed_stream_id := stream_id,
                                streams := (streams c)(stream_id \<mapsto> new_stream)\<rparr>, new_stream))
                else Inr (c\<lparr>streams := (streams c)(stream_id \<mapsto> new_stream)\<rparr>, new_stream)))"

definition get_stream :: "Http2Connection \<Rightarrow> nat \<Rightarrow> Http2Stream option" where
  "get_stream c stream_id = (if stream_id = 0 then None else streams c stream_id)"

subsection \<open>apply_remote_setting\<close>

text \<open>
  The loop over \<open>streams_\<close> after a change of \<open>INITIAL_WINDOW_SIZE\<close>: every stream that
  is neither idle nor closed gets \<open>update_remote_window(delta)\<close>, whose result the code
  ignores; \<open>delta\<close> is an \<open>int32_t\<close> passed where a \<open>uint32_t\<close> is expected.
\<close>

definition adjust_stream_window :: "int \<Rightarrow> Http2Stream \<Rightarrow> Http2Stream" where
  "adjust_stream_window delta s =
     (if st_state s \<noteq> IDLE \<and> st_state s \<noteq> CLOSED
      then snd (update_remote_window s (uint32_of delta))
      else s)"

definition apply_remote_setting :: "Http2Connection \<Rightarrow> Setting \<Rightarrow> Http2Connection" where
  "apply_remote_setting c setting =
     (let old_initial_window = initial_window_size (remote_settings c);
          v = setting_value setting
      in if set_identifier setting = SETTINGS_HEADER_TABLE_SIZE then
           c\<lparr>remote_settings := (remote_settings c)\<lparr>header_table_size := v\<rparr>,
             hpack_decoder := set_max_dynamic_table_size (hpack_decoder c) v\<rparr>
         else if set_identifier setting = SETTINGS_ENABLE_PUSH then
           (if v > 1 then c
            else c\<lparr>remote_settings := (remote_settings c)\<lparr>enable_push := (v = 1)\<rparr>\<rparr>)
         else if set_identifier setting = SETTINGS_MAX_CONCURRENT_STREAMS then
           c\<lparr>remote_settings := (remote_settings c)\<lparr>max_concurrent_streams := v\<rparr>\<rparr>
         else if set_identifier setting = SETTINGS_INITIAL_WINDOW_SIZE then
           (if v > MAX_ALLOWED_WINDOW_SIZE then c
            else
              let delta = i32 (i32 (int v) - i32 (int old_initial_window))
              in c\<lparr>remote_settings := (remote_settings c)\<lparr>initial_window_size := v\<rparr>,
                   streams := (\<lambda>k. map_option (adjust_stream_window delta) (streams c k))\<rparr>)
         else if set_identifier setting = SETTINGS_MAX_FRAME_SIZE then
           (if v < DEFAULT_MAX_FRAME_SIZE \<or> v > MAX_ALLOWED_FRAME_SIZE then c
            else c\<lparr>remote_settings := (remote_settings c)\<lparr>max_frame_size := v\<rparr>\<rparr>)
         else if set_identifier setting = SETTINGS_MAX_HEADER_LIST_SIZE then
           c\<lparr>remote_settings := (remote_settings c)\<lparr>max_header_list_size := v\<rparr>\<rparr>
         else c)"

subsection \<open>handle_window_update_frame\<close>

definition handle_window_update_frame :: "Http2Connection \<Rightarrow> WindowUpdateFrame \<Rightarrow> Http2Connection" where
  "handle_window_update_frame c frame =
     (let sid = fh_stream_id (wf_header frame); inc = wf_window_size_increment frame in
      if inc = 0 then
        (if sid = 0
         then c\<lparr>actions := actions c @
                 [SendGoAway (last_processed_stream_id c) ErrorCode_PROTOCOL_ERROR
                    ''WINDOW_UPDATE with 0 increment on stream 0'']\<rparr>
         else
           let c1 = c\<lparr>actions := actions c @ [SendRstStream sid ErrorCode_PROTOCOL_ERROR]\<rparr>
           in case get_stream c1 sid of
                None \<Rightarrow> c1
              | Some s \<Rightarrow> c1\<lparr>streams := (streams c1)(sid \<mapsto> transition_to_closed s)\<rparr>)
      else if sid = 0 then
        (if remote_connection_window_size c + int inc > int MAX_ALLOWED_WINDOW_SIZE
         then c\<lparr>actions := actions c @
                 [SendGoAway (last_processed_stream_id c) ErrorCode_FLOW_CONTROL_ERROR
                    ''WINDOW_UPDATE for connection overflowed'']\<rparr>
         else c\<lparr>remote_connection_window_size := i32 (remote_connection_window_size c + int inc)\<rparr>)
      else
        (case get_stream c sid of
           None \<Rightarrow>
             c\<lparr>actions := actions c @
                 [SendGoAway (last_processed_stream_id c) ErrorCode_PROTOCOL_ERROR
                    ''WINDOW_UPDATE on idle/closed stream'']\<rparr>
         | Some s \<Rightarrow>
             if st_state s = IDLE
             then c\<lparr>actions := actions c @
                     [SendGoAway (last_processed_stream_id c) ErrorCode_PROTOCOL_ERROR
                        ''WINDOW_UPDATE on idle/closed stream'']\<rparr>
             else if st_state s = CLOSED then c
             else case update_remote_window s inc of
                    (ok, s') \<Rightarrow>
                      if \<not> ok
                      then c\<lparr>actions := actions c @ [SendRstStream sid ErrorCode_FLOW_CONTROL_ERROR],
                             streams := (streams c)(sid \<mapsto> transition_to_closed s')\<rparr>
                      else c\<lparr>streams := (streams c)(sid \<mapsto> s')\<rparr>))"

subsection \<open>send_data\<close>

text \<open>\<open>static_cast<uint32_t>(std::max(0, w))\<close> for an \<open>int32_t\<close> window \<open>w\<close>.\<close>

definition available_window :: "int \<Rightarrow> nat" where
  "available_window w = u32 (nat (max 0 w))"

text \<open>The loop's test for the empty \<open>DATA\<close> frame that only carries \<open>END_STREAM\<close>.\<close>

definition empty_end :: "byte list \<Rightarrow> bool \<Rightarrow> nat \<Rightarrow> bool" where
  "empty_end data end_stream data_offset = (data = [] \<and> data_offset = 0 \<and> end_stream)"

text \<open>
  \<open>current_chunk_size\<close> after the three \<open>std::min\<close>: the remaining size converted to
  \<open>uint32_t\<close>, limited by the peer's maximal frame size and by both send windows.
\<close>

definition chunk_limit :: "Http2Connection \<Rightarrow> Http2Stream \<Rightarrow> byte list \<Rightarrow> nat \<Rightarrow> nat" where
  "chunk_limit c stream data data_offset =
     min (min (min (u32 (length data - data_offset)) (max_frame_size (remote_settings c)))
              (available_window (remote_window_size stream)))
         (available_window (remote_connection_window_size c))"

definition record_connection_data_sent :: "Http2Connection \<Rightarrow> nat \<Rightarrow> Http2Connection" where
  "record_connection_data_sent c data_size =
     c\<lparr>remote_connection_window_size := i32 (remote_connection_window_size c - i32 (int data_size))\<rparr>"

text \<open>
  The \<open>DataFrame\<close> that one pass of the loop builds.  The source leaves
  \<open>header.length\<close> unset; the serializer computes the length that is written.
\<close>

definition chunk_frame :: "nat \<Rightarrow> byte list \<Rightarrow> bool \<Rightarrow> nat \<Rightarrow> nat \<Rightarrow> DataFrame" where
  "chunk_frame stream_id data end_stream data_offset current_chunk_size =
     \<lparr>df_header =
        \<lparr>fh_length = 0, fh_type = FrameType_DATA,
         fh_flags = (if end_stream \<and> data_offset + current_chunk_size = length data
                     then END_STREAM_FLAG else 0),
         fh_stream_id = stream_id\<rparr>,
      df_pad_length = None,
      df_data = take current_chunk_size (drop data_offset data)\<rparr>"

text \<open>
  One pass of the loop of \<open>send_data\<close>, in two parts: the tests before a frame is built
  (\<open>send_data_body\<close>) and the emission of the frame (\<open>send_chunk\<close>).  The result is
  \<open>Some b\<close> when the pass leaves the function with \<open>b\<close> (a \<open>return\<close>, or a \<open>break\<close>
  followed by \<open>return true\<close>) and \<open>None\<close> when the loop goes on, together with the
  connection, the stream that the pointer \<open>stream\<close> designates, and \<open>data_offset\<close>.
\<close>

definition send_chunk ::
  "Http2Connection \<Rightarrow> nat \<Rightarrow> Http2Stream \<Rightarrow> byte list \<Rightarrow> bool \<Rightarrow> nat \<Rightarrow> nat
   \<Rightarrow> bool option \<times> Http2Connection \<times> Http2Stream \<times> nat" where
  "send_chunk c stream_id stream data end_stream data_offset current_chunk_size =
     (if serialize_data_frame (chunk_frame stream_id data end_stream data_offset current_chunk_size) = []
         \<and> (current_chunk_size > 0 \<or> (data = [] \<and> end_stream))
      then (Some (data_offset + current_chunk_size > current_chunk_size), c, stream,
            data_offset + current_chunk_size)
      else
        (if empty_end data end_stream (data_offset + current_chunk_size)
            \<or> data_offset + current_chunk_size = length data
         then Some True else None,
         record_connection_data_sent
           (c\<lparr>actions := actions c @
                 [SendBytes (serialize_data_frame
                    (chunk_frame stream_id data end_stream data_offset current_chunk_size))]\<rparr>)
           current_chunk_size,
         if end_stream \<and> data_offset + current_chunk_size = length data
         then transition_to_half_closed_local (record_data_sent stream current_chunk_size)
         else record_data_sent stream current_chunk_size,
         data_offset + current_chunk_size))"

definition send_data_body ::
  "Http2Connection \<Rightarrow> nat \<Rightarrow> Http2Stream \<Rightarrow> byte list \<Rightarrow> bool \<Rightarrow> nat
   \<Rightarrow> bool option \<times> Http2Connection \<times> Http2Stream \<times> nat" where
  "send_data_body c stream_id stream data end_stream data_offset =
     (if (available_window (remote_window_size stream) = 0
          \<or> available_window (remote_connection_window_size c) = 0)
         \<and> \<not> empty_end data end_stream data_offset
      then (if data_offset < length data then (Some (data_offset > 0), c, stream, data_offset)
            else (Some True, c, stream, data_offset))
      else if chunk_limit c stream data data_offset = 0 \<and> length data - data_offset > 0
      then (Some (data_offset > 0), c, stream, data_offset)
      else send_chunk c stream_id stream data end_stream data_offset
             (if empty_end data end_stream data_offset then 0
              else chunk_limit c stream data data_offset))"

lemma send_data_body_progress:
  assumes "send_data_body c stream_id stream data end_stream data_offset = (None, c', stream', off')"
    and "data_offset < length data"
  shows "length data - off' < length data - data_offset"
proof -
  have le: "chunk_limit c stream data data_offset \<le> length data - data_offset"
    unfolding chunk_limit_def u32_def
    by (rule min.coboundedI1, rule min.coboundedI1, rule min.coboundedI1) simp
  from assms have "chunk_limit c stream data data_offset \<noteq> 0
      \<and> off' = data_offset + chunk_limit c stream data data_offset"
    by (auto simp: send_data_body_def send_chunk_def empty_end_def split: if_splits)
  with le assms(2) show ?thesis by arith
qed

function send_data_loop ::
  "Http2Connection \<Rightarrow> nat \<Rightarrow> Http2Stream \<Rightarrow> byte list \<Rightarrow> bool \<Rightarrow> nat
   \<Rightarrow> bool \<times> Http2Connection \<times> Http2Stream" where
  "send_data_loop c stream_id stream data end_stream data_offset =
     (if \<not> (data_offset < length data \<or> empty_end data end_stream data_offset)
      then (True, c, stream)
      else case send_data_body c stream_id stream data end_stream data_offset of
             (Some b, c', stream', off') \<Rightarrow> (b, c', stream')
           | (None, c', stream', off') \<Rightarrow>
               if data_offset < length data
               then send_data_loop c' stream_id stream' data end_stream off'
               else (True, c', stream'))"
  by pat_completeness auto
termination
  by (relation "measure (\<lambda>(c, stream_id, stream, data, end_stream, data_offset).
                           length data - data_offset)")
     (auto dest: send_data_body_progress [OF sym])

declare send_data_loop.simps [simp del]

text \<open>
  \<open>send_data\<close>: the stream is looked up once and modified through the pointer; here the
  stream that the loop returns is stored back under its id.
\<close>

definition send_data :: "Http2Connection \<Rightarrow> nat \<Rightarrow> byte list \<Rightarrow> bool \<Rightarrow> bool \<times> Http2Connection" where
  "send_data c stream_id data end_stream =
     (if stream_id = 0 then (False, c)
      else case get_stream c stream_id of
        None \<Rightarrow> (False, c)
      | Some stream \<Rightarrow>
          if st_state stream \<noteq> OPEN \<and> st_state stream \<noteq> HALF_CLOSED_REMOTE then (False, c)
          else case send_data_loop c stream_id stream data end_stream 0 of
                 (b, c', stream') \<Rightarrow> (b, c'\<lparr>streams := (streams c')(stream_id \<mapsto> stream')\<rparr>))"


section \<open>Frame parser (http2_parser.h, http2_parser.cpp)\<close>

datatype ParserError =
    ParserError_OK
  | BUFFER_TOO_SMALL
  | INVALID_FRAME_TYPE
  | INVALID_FRAME_SIZE
  | INVALID_FRAME_FLAGS
  | INVALID_STREAM_ID
  | INVALID_PADDING
  | INVALID_PRIORITY_DATA
  | INVALID_SETTINGS_VALUE
  | INVALID_WINDOW_UPDATE_INCREMENT
  | HPACK_DECOMPRESSION_FAILED
  | ParserError_PROTOCOL_ERROR
  | ParserError_INTERNAL_ERROR
  | CONTINUATION_EXPECTED
  | CONTINUATION_WRONG_STREAM
  | FRAME_SIZE_LIMIT_EXCEEDED

text \<open>\<open>static_cast<int>(error)\<close>: the position of the enumerator.\<close>

fun ParserError_to_int :: "ParserError \<Rightarrow> nat" where
  "ParserError_to_int ParserError_OK = 0"
| "ParserError_to_int BUFFER_TOO_SMALL = 1"
| "ParserError_to_int INVALID_FRAME_TYPE = 2"
| "ParserError_to_int INVALID_FRAME_SIZE = 3"
| "ParserError_to_int INVALID_FRAME_FLAGS = 4"
| "ParserError_to_int INVALID_STREAM_ID = 5"
| "ParserError_to_int INVALID_PADDING = 6"
| "ParserError_to_int INVALID_PRIORITY_DATA = 7"
| "ParserError_to_int INVALID_SETTINGS_VALUE = 8"
| "ParserError_to_int INVALID_WINDOW_UPDATE_INCREMENT = 9"
| "ParserError_to_int HPACK_DECOMPRESSION_FAILED = 10"
| "ParserError_to_int ParserError_PROTOCOL_ERROR = 11"
| "ParserError_to_int ParserError_INTERNAL_ERROR = 12"
| "ParserError_to_int CONTINUATION_EXPECTED = 13"
| "ParserError_to_int CONTINUATION_WRONG_STREAM = 14"
| "ParserError_to_int FRAME_SIZE_LIMIT_EXCEEDED = 15"

text \<open>The parser's members.\<close>

datatype ParserState = READING_FRAME_HEADER | READING_FRAME_PAYLOAD

record Http2Parser =
  current_state :: ParserState
  buffer :: "byte list"
  pending_frame_header :: FrameHeader

definition new_Http2Parser :: Http2Parser where
  "new_Http2Parser =
     \<lparr>current_state = READING_FRAME_HEADER, buffer = [], pending_frame_header = empty_FrameHeader\<rparr>"

subsection \<open>Big-endian reads\<close>

text \<open>
  The reads take the bytes at the start of the list.  Every call in the parser comes
  after a test of the length; the last clause stands for a read past the end.
\<close>

fun read_uint16_big_endian :: "byte list \<Rightarrow> nat" where
  "read_uint16_big_endian (b0 # b1 # bs) = unat b0 * 2 ^ 8 + unat b1"
| "read_uint16_big_endian bs = 0"

fun read_uint24_big_endian :: "byte list \<Rightarrow> nat" where
  "read_uint24_big_endian (b0 # b1 # b2 # bs) = unat b0 * 2 ^ 16 + unat b1 * 2 ^ 8 + unat b2"
| "read_uint24_big_endian bs = 0"

fun read_uint32_big_endian :: "byte list \<Rightarrow> nat" where
  "read_uint32_big_endian (b0 # b1 # b2 # b3 # bs) =
     unat b0 * 2 ^ 24 + unat b1 * 2 ^ 16 + unat b2 * 2 ^ 8 + unat b3"
| "read_uint32_big_endian bs = 0"

definition read_frame_header :: "byte list \<Rightarrow> FrameHeader option" where
  "read_frame_header data =
     (if length data < 9 then None
      else Some \<lparr>fh_length = read_uint24_big_endian data,
                 fh_type = data ! 3,
                 fh_flags = data ! 4,
                 fh_stream_id = read_uint32_big_endian (drop 5 data) mod 2 ^ 31\<rparr>)"

subsection \<open>Continuation state of the connection (called by the parser)\<close>

definition is_expecting_continuation :: "Http2Connection \<Rightarrow> bool" where
  "is_expecting_continuation c = (expected_continuation_stream_id c \<noteq> None)"

definition get_expected_continuation_stream_id :: "Http2Connection \<Rightarrow> nat" where
  "get_expected_continuation_stream_id c =
     (case expected_continuation_stream_id c of None \<Rightarrow> 0 | Some v \<Rightarrow> v)"

definition expect_continuation_for_stream ::
  "Http2Connection \<Rightarrow> nat \<Rightarrow> FrameType \<Rightarrow> AnyHttp2Frame \<Rightarrow> Http2Connection" where
  "expect_continuation_for_stream c stream_id initiator_type initiator_frame =
     c\<lparr>expected_continuation_stream_id := Some stream_id,
       header_sequence_initiator_type := Some initiator_type,
       pending_header_initiator_frame := Some initiator_frame\<rparr>"

definition clear_header_block_buffer :: "Http2Connection \<Rightarrow> Http2Connection" where
  "clear_header_block_buffer c = c\<lparr>header_block_buffer := []\<rparr>"

definition finish_continuation :: "Http2Connection \<Rightarrow> Http2Connection" where
  "finish_continuation c =
     clear_header_block_buffer
       (c\<lparr>expected_continuation_stream_id := None,
          header_sequence_initiator_type := None,
          pending_header_initiator_frame := None\<rparr>)"

definition append_to_header_block_buffer :: "Http2Connection \<Rightarrow> byte list \<Rightarrow> Http2Connection" where
  "append_to_header_block_buffer c fragment =
     c\<lparr>header_block_buffer := header_block_buffer c @ fragment\<rparr>"

definition populate_pending_headers :: "Http2Connection \<Rightarrow> HttpHeader list \<Rightarrow> Http2Connection" where
  "populate_pending_headers c headers =
     (case pending_header_initiator_frame c of
        Some (Headers f) \<Rightarrow>
          c\<lparr>pending_header_initiator_frame := Some (Headers (f\<lparr>hf_headers := headers\<rparr>))\<rparr>
      | Some (PushPromise f) \<Rightarrow>
          c\<lparr>pending_header_initiator_frame := Some (PushPromise (f\<lparr>ppf_headers := headers\<rparr>))\<rparr>
      | _ \<Rightarrow> c)"

text \<open>
  \<open>hpack_decoder_.decode(connection_context_.get_header_block_buffer_span())\<close>: the
  decoder is the connection's; the result is the headers, the error and the connection
  with the decoder as \<open>decode\<close> leaves it.
\<close>

definition decode_header_block ::
  "Http2Connection \<Rightarrow> HttpHeader list \<times> HpackError \<times> Http2Connection" where
  "decode_header_block c =
     (case decode (hpack_decoder c) (header_block_buffer c) of
        (decoded_headers, hpack_err, d) \<Rightarrow> (decoded_headers, hpack_err, c\<lparr>hpack_decoder := d\<rparr>))"

subsection \<open>Payload parsers\<close>

text \<open>
  A payload parser returns a frame and an error; the frame is only used when the error
  is \<open>OK\<close>, so the result is \<open>Inl\<close> of the error or \<open>Inr\<close> of the frame.  The parsers of
  \<open>HEADERS\<close>, \<open>PUSH_PROMISE\<close> and \<open>CONTINUATION\<close> also change the connection.

  \<open>size_t_of\<close> is the conversion to \<open>size_t\<close> of a difference computed in \<open>size_t\<close>;
  \<open>static_cast<int>\<close> of it is \<open>i32\<close>.
\<close>

definition size_t_of :: "int \<Rightarrow> nat" where
  "size_t_of x = nat (x mod 2 ^ 64)"

definition fragment_length :: "byte list \<Rightarrow> nat \<Rightarrow> byte option \<Rightarrow> nat" where
  "fragment_length payload current_offset pad_length =
     size_t_of (int (length payload) - int current_offset - int (value_or_0 pad_length))"

definition parse_data_payload :: "FrameHeader \<Rightarrow> byte list \<Rightarrow> ParserError + DataFrame" where
  "parse_data_payload header payload =
     (if fh_stream_id header = 0 then Inl INVALID_STREAM_ID
      else if has_flag (fh_flags header) PADDED_FLAG \<and> payload = [] then Inl INVALID_PADDING
      else if has_flag (fh_flags header) PADDED_FLAG \<and> unat (hd payload) > length payload - 1
      then Inl INVALID_PADDING
      else
        let current_offset = (if has_flag (fh_flags header) PADDED_FLAG then 1 else 0);
            pad_length = (if has_flag (fh_flags header) PADDED_FLAG then Some (hd payload) else Some 0);
            data_length = fragment_length payload current_offset pad_length
        in if i32 (int data_length) < 0 then Inl INVALID_PADDING
           else Inr \<lparr>df_header = header, df_pad_length = pad_length,
                     df_data = take data_length (drop current_offset payload)\<rparr>)"

text \<open>
  The part that \<open>HEADERS\<close> and \<open>PUSH_PROMISE\<close> share after the fragment is cut out: the
  buffer is cleared when no continuation is expected or one is expected on another
  stream, and the fragment is appended.
\<close>

definition start_header_block :: "Http2Connection \<Rightarrow> nat \<Rightarrow> byte list \<Rightarrow> Http2Connection" where
  "start_header_block c stream_id hpack_payload =
     append_to_header_block_buffer
       (if \<not> is_expecting_continuation c
           \<or> (is_expecting_continuation c \<and> stream_id \<noteq> get_expected_continuation_stream_id c)
        then clear_header_block_buffer c else c)
       hpack_payload"

definition parse_headers_payload ::
  "Http2Connection \<Rightarrow> FrameHeader \<Rightarrow> byte list \<Rightarrow> (ParserError + HeadersFrame) \<times> Http2Connection" where
  "parse_headers_payload c header payload =
     (if fh_stream_id header = 0 then (Inl INVALID_STREAM_ID, c)
      else if has_flag (fh_flags header) PADDED_FLAG \<and> payload = [] then (Inl INVALID_PADDING, c)
      else if has_flag (fh_flags header) PADDED_FLAG \<and> unat (hd payload) > length payload - 1
      then (Inl INVALID_PADDING, c)
      else
        let offset1 = (if has_flag (fh_flags header) PADDED_FLAG then 1 else 0);
            pad_length = (if has_flag (fh_flags header) PADDED_FLAG then Some (hd payload) else None)
        in if has_flag (fh_flags header) PRIORITY_FLAG \<and> length payload - offset1 < 5
           then (Inl INVALID_PRIORITY_DATA, c)
           else
             let prio = has_flag (fh_flags header) PRIORITY_FLAG;
                 stream_dep_raw = read_uint32_big_endian (drop offset1 payload);
                 current_offset = (if prio then offset1 + 5 else offset1);
                 frame = \<lparr>hf_header = header, hf_pad_length = pad_length,
                          hf_exclusive_dependency =
                            (if prio then Some (stream_dep_raw div 2 ^ 31 mod 2 = 1) else None),
                          hf_stream_dependency =
                            (if prio then Some (stream_dep_raw mod 2 ^ 31) else None),
                          hf_weight = (if prio then Some (payload ! (offset1 + 4)) else None),
                          hf_headers = []\<rparr>;
                 header_block_fragment_len = fragment_length payload current_offset pad_length
             in if i32 (int header_block_fragment_len) < 0 then (Inl INVALID_PADDING, c)
                else
                  let c1 = start_header_block c (get_stream_id header)
                             (take header_block_fragment_len (drop current_offset payload))
                  in if has_flag (fh_flags header) END_HEADERS_FLAG
                     then (case decode_header_block c1 of
                             (decoded_headers, hpack_err, c2) \<Rightarrow>
                               if hpack_err \<noteq> HpackError_OK
                               then (Inl HPACK_DECOMPRESSION_FAILED,
                                     finish_continuation (clear_header_block_buffer c2))
                               else (Inr (frame\<lparr>hf_headers := decoded_headers\<rparr>),
                                     finish_continuation (clear_header_block_buffer c2)))
                     else (Inr frame,
                           expect_continuation_for_stream c1 (get_stream_id header)
                             FrameType_HEADERS (Headers frame)))"

definition parse_priority_payload :: "FrameHeader \<Rightarrow> byte list \<Rightarrow> ParserError + PriorityFrame" where
  "parse_priority_payload header payload =
     (if fh_length header \<noteq> 5 then Inl INVALID_FRAME_SIZE
      else if fh_stream_id header = 0 then Inl INVALID_STREAM_ID
      else Inr \<lparr>pf_header = header,
                pf_exclusive_dependency = (read_uint32_big_endian payload div 2 ^ 31 mod 2 = 1),
                pf_stream_dependency = read_uint32_big_endian payload mod 2 ^ 31,
                pf_weight = payload ! 4\<rparr>)"

definition parse_rst_stream_payload :: "FrameHeader \<Rightarrow> byte list \<Rightarrow> ParserError + RstStreamFrame" where
  "parse_rst_stream_payload header payload =
     (if fh_length header \<noteq> 4 then Inl INVALID_FRAME_SIZE
      else if fh_stream_id header = 0 then Inl INVALID_STREAM_ID
      else Inr \<lparr>rf_header = header, rf_error_code = read_uint32_big_endian payload\<rparr>)"

text \<open>The loop over the six-byte entries of a \<open>SETTINGS\<close> payload.\<close>

fun read_settings :: "byte list \<Rightarrow> Setting list" where
  "read_settings (b0 # b1 # b2 # b3 # b4 # b5 # bs) =
     \<lparr>set_identifier = read_uint16_big_endian [b0, b1],
      setting_value = read_uint32_big_endian [b2, b3, b4, b5]\<rparr> # read_settings bs"
| "read_settings bs = []"

definition parse_settings_payload :: "FrameHeader \<Rightarrow> byte list \<Rightarrow> ParserError + SettingsFrame" where
  "parse_settings_payload header payload =
     (if fh_stream_id header \<noteq> 0 then Inl INVALID_STREAM_ID
      else if has_flag (fh_flags header) ACK_FLAG then
        (if fh_length header \<noteq> 0 then Inl INVALID_FRAME_SIZE
         else Inr \<lparr>sf_header = header, sf_settings = []\<rparr>)
      else if fh_length header mod 6 \<noteq> 0 then Inl INVALID_FRAME_SIZE
      else Inr \<lparr>sf_header = header, sf_settings = read_settings payload\<rparr>)"

definition parse_push_promise_payload ::
  "Http2Connection \<Rightarrow> FrameHeader \<Rightarrow> byte list
   \<Rightarrow> (ParserError + PushPromiseFrame) \<times> Http2Connection" where
  "parse_push_promise_payload c header payload =
     (if fh_stream_id header = 0 then (Inl INVALID_STREAM_ID, c)
      else if is_server c then (Inl ParserError_PROTOCOL_ERROR, c)
      else if has_flag (fh_flags header) PADDED_FLAG \<and> payload = [] then (Inl INVALID_PADDING, c)
      else if has_flag (fh_flags header) PADDED_FLAG \<and> unat (hd payload) > length payload - 1
      then (Inl INVALID_PADDING, c)
      else
        let offset1 = (if has_flag (fh_flags header) PADDED_FLAG then 1 else 0);
            pad_length = (if has_flag (fh_flags header) PADDED_FLAG then Some (hd payload) else None)
        in if length payload - offset1 < 4 then (Inl INVALID_FRAME_SIZE, c)
           else
             let promised = read_uint32_big_endian (drop offset1 payload) mod 2 ^ 31;
                 current_offset = offset1 + 4
             in if promised = 0 then (Inl INVALID_STREAM_ID, c)
                else
                  let frame = \<lparr>ppf_header = header, ppf_pad_length = pad_length,
                               ppf_promised_stream_id = promised, ppf_headers = []\<rparr>;
                      header_block_fragment_len = fragment_length payload current_offset pad_length
                  in if i32 (int header_block_fragment_len) < 0 then (Inl INVALID_PADDING, c)
                     else
                       let c1 = start_header_block c (get_stream_id header)
                                  (take header_block_fragment_len (drop current_offset payload))
                       in if has_flag (fh_flags header) END_HEADERS_FLAG
                          then (case decode_header_block c1 of
                                  (decoded_headers, hpack_err, c2) \<Rightarrow>
                                    if hpack_err \<noteq> HpackError_OK
                                    then (Inl HPACK_DECOMPRESSION_FAILED,
                                          finish_continuation (clear_header_block_buffer c2))
                                    else (Inr (frame\<lparr>ppf_headers := decoded_headers\<rparr>),
                                          finish_continuation (clear_header_block_buffer c2)))
                          else (Inr frame,
                                expect_continuation_for_stream c1 (get_stream_id header)
                                  FrameType_PUSH_PROMISE (PushPromise frame)))"

definition parse_ping_payload :: "FrameHeader \<Rightarrow> byte list \<Rightarrow> ParserError + PingFrame" where
  "parse_ping_payload header payload =
     (if fh_length header \<noteq> 8 then Inl INVALID_FRAME_SIZE
      else if fh_stream_id header \<noteq> 0 then Inl INVALID_STREAM_ID
      else Inr \<lparr>pgf_header = header, pgf_opaque_data = payload\<rparr>)"

definition parse_goaway_payload :: "FrameHeader \<Rightarrow> byte list \<Rightarrow> ParserError + GoAwayFrame" where
  "parse_goaway_payload header payload =
     (if fh_length header < 8 then Inl INVALID_FRAME_SIZE
      else if fh_stream_id header \<noteq> 0 then Inl INVALID_STREAM_ID
      else Inr \<lparr>gf_header = header,
                gf_last_stream_id = read_uint32_big_endian payload mod 2 ^ 31,
                gf_error_code = read_uint32_big_endian (drop 4 payload),
                gf_additional_debug_data = (if fh_length header > 8 then drop 8 payload else [])\<rparr>)"

definition parse_window_update_payload ::
  "FrameHeader \<Rightarrow> byte list \<Rightarrow> ParserError + WindowUpdateFrame" where
  "parse_window_update_payload header payload =
     (if fh_length header \<noteq> 4 then Inl INVALID_FRAME_SIZE
      else if read_uint32_big_endian payload mod 2 ^ 31 = 0
      then Inl INVALID_WINDOW_UPDATE_INCREMENT
      else Inr \<lparr>wf_header = header,
                wf_window_size_increment = read_uint32_big_endian payload mod 2 ^ 31\<rparr>)"

definition parse_continuation_payload ::
  "Http2Connection \<Rightarrow> FrameHeader \<Rightarrow> byte list
   \<Rightarrow> (ParserError + ContinuationFrame) \<times> Http2Connection" where
  "parse_continuation_payload c header payload =
     (if \<not> is_expecting_continuation c then (Inl ParserError_PROTOCOL_ERROR, c)
      else if fh_stream_id header \<noteq> get_expected_continuation_stream_id c
      then (Inl CONTINUATION_WRONG_STREAM, c)
      else if fh_stream_id header = 0 then (Inl INVALID_STREAM_ID, c)
      else
        let c1 = append_to_header_block_buffer c payload;
            frame = \<lparr>cf_header = header, cf_header_block_fragment = payload\<rparr>
        in if has_flag (fh_flags header) END_HEADERS_FLAG
           then (case decode_header_block c1 of
                   (decoded_headers, hpack_err, c2) \<Rightarrow>
                     if hpack_err \<noteq> HpackError_OK then (Inl HPACK_DECOMPRESSION_FAILED, c2)
                     else (Inr frame,
                           finish_continuation
                             (clear_header_block_buffer (populate_pending_headers c2 decoded_headers))))
           else (Inr frame, c1))"

subsection \<open>parse\<close>

text \<open>The \<open>switch\<close> on the frame type in \<open>parse\<close>.\<close>

definition parse_frame_payload ::
  "Http2Connection \<Rightarrow> FrameHeader \<Rightarrow> byte list \<Rightarrow> (ParserError + AnyHttp2Frame) \<times> Http2Connection" where
  "parse_frame_payload c header payload =
     (if fh_type header = FrameType_DATA
      then (map_sum id Data (parse_data_payload header payload), c)
      else if fh_type header = FrameType_HEADERS
      then (case parse_headers_payload c header payload of (r, c') \<Rightarrow> (map_sum id Headers r, c'))
      else if fh_type header = FrameType_PRIORITY
      then (map_sum id Priority (parse_priority_payload header payload), c)
      else if fh_type header = FrameType_RST_STREAM
      then (map_sum id RstStream (parse_rst_stream_payload header payload), c)
      else if fh_type header = FrameType_SETTINGS
      then (map_sum id Settings (parse_settings_payload header payload), c)
      else if fh_type header = FrameType_PUSH_PROMISE
      then (case parse_push_promise_payload c header payload of
              (r, c') \<Rightarrow> (map_sum id PushPromise r, c'))
      else if fh_type header = FrameType_PING
      then (map_sum id Ping (parse_ping_payload header payload), c)
      else if fh_type header = FrameType_GOAWAY
      then (map_sum id GoAway (parse_goaway_payload header payload), c)
      else if fh_type header = FrameType_WINDOW_UPDATE
      then (map_sum id WindowUpdate (parse_window_update_payload header payload), c)
      else if fh_type header = FrameType_CONTINUATION
      then (case parse_continuation_payload c header payload of
              (r, c') \<Rightarrow> (map_sum id Continuation r, c'))
      else (Inl INVALID_FRAME_TYPE, c))"

text \<open>
  The state of \<open>parse\<close>: the parser, the connection it refers to, \<open>total_consumed_bytes\<close>
  and, as a record of what happened, the frames that were handed to
  \<open>raw_frame_parsed_cb_\<close>, in order.  The callback is a parameter: it receives the frame
  and may change the connection (the connection installs \<open>handle_parsed_frame\<close>).
\<close>

type_synonym parse_state = "Http2Parser \<times> Http2Connection \<times> nat \<times> AnyHttp2Frame list"

text \<open>
  One pass of the \<open>while (true)\<close> loop up to the end of the \<open>READING_FRAME_PAYLOAD\<close>
  block: \<open>Inl\<close> is a \<open>break\<close> with the value of \<open>last_error\<close>, \<open>Inr\<close> a frame that was
  parsed, delivered and erased from the buffer.
\<close>

definition read_pending_header :: "Http2Parser \<Rightarrow> Http2Parser option" where
  "read_pending_header p =
     (if current_state p = READING_FRAME_HEADER
      then map_option (\<lambda>h. p\<lparr>pending_frame_header := h\<rparr>) (read_frame_header (take 9 (buffer p)))
      else Some p)"

definition parse_pass ::
  "(AnyHttp2Frame \<Rightarrow> Http2Connection \<Rightarrow> Http2Connection) \<Rightarrow> parse_state
   \<Rightarrow> (ParserError \<times> parse_state) + parse_state" where
  "parse_pass cb s =
     (case s of (p, c, total_consumed_bytes, delivered) \<Rightarrow>
      if current_state p = READING_FRAME_HEADER \<and> length (buffer p) < 9
      then Inl (ParserError_OK, s)
      else case read_pending_header p of
        None \<Rightarrow> Inl (ParserError_INTERNAL_ERROR, s)
      | Some p1 \<Rightarrow>
          if current_state p = READING_FRAME_HEADER
             \<and> fh_length (pending_frame_header p1) > max_frame_size (remote_settings c)
          then Inl (FRAME_SIZE_LIMIT_EXCEEDED, (p1, c, total_consumed_bytes, delivered))
          else if length (buffer p1) < 9 + fh_length (pending_frame_header p1)
          then Inl (ParserError_OK,
                    (p1\<lparr>current_state := READING_FRAME_PAYLOAD\<rparr>, c, total_consumed_bytes, delivered))
          else
            case parse_frame_payload c (pending_frame_header p1)
                   (take (fh_length (pending_frame_header p1)) (drop 9 (buffer p1))) of
              (Inl parse_payload_error, c') \<Rightarrow>
                Inl (parse_payload_error,
                     (p1\<lparr>current_state := READING_FRAME_PAYLOAD\<rparr>, c', total_consumed_bytes, delivered))
            | (Inr parsed_frame, c') \<Rightarrow>
                Inr (p1\<lparr>current_state := READING_FRAME_HEADER,
                         buffer := drop (9 + fh_length (pending_frame_header p1)) (buffer p1)\<rparr>,
                     cb parsed_frame c',
                     total_consumed_bytes + (9 + fh_length (pending_frame_header p1)),
                     delivered @ [parsed_frame]))"

lemma parse_pass_consumes:
  assumes "parse_pass cb (p, c, n, fs) = Inr (p', c', n', fs')"
  shows "length (buffer p') < length (buffer p)"
proof -
  have "read_pending_header p = Some p1 \<Longrightarrow> buffer p1 = buffer p" for p1
    by (auto simp: read_pending_header_def split: if_splits)
  with assms show ?thesis
    by (auto simp: parse_pass_def split: if_splits option.splits prod.splits sum.splits)
qed

function parse_loop ::
  "(AnyHttp2Frame \<Rightarrow> Http2Connection \<Rightarrow> Http2Connection) \<Rightarrow> parse_state
   \<Rightarrow> ParserError \<times> parse_state" where
  "parse_loop cb s =
     (case parse_pass cb s of
        Inl r \<Rightarrow> r
      | Inr s' \<Rightarrow>
          if buffer (fst s') = [] \<or> length (buffer (fst s')) < 9 then (ParserError_OK, s')
          else parse_loop cb s')"
  by pat_completeness auto
termination
proof (relation "measure (\<lambda>(cb, s). length (buffer (fst s)))")
  fix cb :: "AnyHttp2Frame \<Rightarrow> Http2Connection \<Rightarrow> Http2Connection"
  fix s s' :: parse_state
  assume "parse_pass cb s = Inr s'"
  then have "length (buffer (fst s')) < length (buffer (fst s))"
    using parse_pass_consumes [of cb "fst s" "fst (snd s)" "fst (snd (snd s))" "snd (snd (snd s))"
        "fst s'" "fst (snd s')" "fst (snd (snd s'))" "snd (snd (snd s'))"]
    by simp
  then show "((cb, s'), (cb, s)) \<in> measure (\<lambda>(cb, s). length (buffer (fst s)))"
    by simp
qed simp

declare parse_loop.simps [simp del]

text \<open>
  \<open>parse\<close>: the data are appended to the parser's buffer and the loop runs.  The result
  is the returned pair, the parser, the connection and the frames delivered.
\<close>

definition parse ::
  "(AnyHttp2Frame \<Rightarrow> Http2Connection \<Rightarrow> Http2Connection) \<Rightarrow> Http2Parser \<Rightarrow> Http2Connection
   \<Rightarrow> byte list \<Rightarrow> (nat \<times> ParserError) \<times> Http2Parser \<times> Http2Connection \<times> AnyHttp2Frame list" where
  "parse cb p c data =
     (case parse_loop cb (p\<lparr>buffer := buffer p @ data\<rparr>, c, 0, []) of
        (last_error, p', c', total_consumed_bytes, delivered) \<Rightarrow>
          ((total_consumed_bytes, last_error), p', c', delivered))"

subsection \<open>process_incoming_data\<close>

text \<open>\<open>std::to_string\<close> of a number that is not negative.\<close>

definition digit_char :: "nat \<Rightarrow> char" where
  "digit_char d = ''0123456789'' ! d"

function to_string :: "nat \<Rightarrow> string" where
  "to_string n = (if n < 10 then [digit_char n] else to_string (n div 10) @ [digit_char (n mod 10)])"
  by pat_completeness auto
termination
  by (relation "measure id") auto

declare to_string.simps [simp del]

text \<open>
  \<open>process_incoming_data\<close>, with the callback that the constructor installs in the
  parser as the parameter \<open>handler\<close>.  The result is the number of bytes consumed, the
  parser and the connection.
\<close>

definition parser_error_code :: "ParserError \<Rightarrow> ErrorCode" where
  "parser_error_code error =
     (if error = FRAME_SIZE_LIMIT_EXCEEDED then ErrorCode_FRAME_SIZE_ERROR
      else if error = HPACK_DECOMPRESSION_FAILED then ErrorCode_COMPRESSION_ERROR
      else ErrorCode_PROTOCOL_ERROR)"

definition process_incoming_data ::
  "(AnyHttp2Frame \<Rightarrow> Http2Connection \<Rightarrow> Http2Connection) \<Rightarrow> Http2Parser \<times> Http2Connection
   \<Rightarrow> byte list \<Rightarrow> nat \<times> Http2Parser \<times> Http2Connection" where
  "process_incoming_data handler pc data =
     (case parse handler (fst pc) (snd pc) data of
        ((consumed_bytes, error), p', c', delivered) \<Rightarrow>
          if error \<noteq> ParserError_OK
          then (consumed_bytes, p',
                c'\<lparr>actions := actions c' @
                     [SendGoAway (last_processed_stream_id c') (parser_error_code error)
                        (''Parser error: code '' @ to_string (ParserError_to_int error))]\<rparr>)
          else (consumed_bytes, p', c'))"

text \<open>
  The dispatch of \<open>handle_parsed_frame\<close> as far as \<open>WINDOW_UPDATE\<close> frames go; frames
  of the other kinds are passed over.
\<close>

definition window_update_handler :: "AnyHttp2Frame \<Rightarrow> Http2Connection \<Rightarrow> Http2Connection" where
  "window_update_handler f c = (case f of WindowUpdate w \<Rightarrow> handle_window_update_frame c w | _ \<Rightarrow> c)"



section \<open>Notions used in the statements\<close>

text \<open>
  The sum of the entry costs of a dynamic table, as a natural number (no 32-bit
  reduction): what the field \<open>current_dynamic_table_size_\<close> is meant to hold.
\<close>

definition table_cost :: "DynamicTableEntry list \<Rightarrow> nat" where
  "table_cost t = sum_list (map e_size t)"

text \<open>An operation on a decoder's or an encoder's table, and a run of operations.\<close>

datatype table_op = Insert HttpHeader | SetCapacity nat

fun apply_table_op :: "HpackDecoder \<Rightarrow> table_op \<Rightarrow> HpackDecoder" where
  "apply_table_op d (Insert h) = add_to_dynamic_table d h"
| "apply_table_op d (SetCapacity n) = set_max_dynamic_table_size d n"

fun enc_apply_table_op :: "HpackEncoder \<Rightarrow> table_op \<Rightarrow> HpackEncoder" where
  "enc_apply_table_op c (Insert h) = enc_add_to_dynamic_table c h"
| "enc_apply_table_op c (SetCapacity n) = snd (set_own_max_dynamic_table_size c n)"

text \<open>The capacity that an operation needs to be in force: none for an insertion.\<close>

fun op_capacity_ok :: "nat \<Rightarrow> table_op \<Rightarrow> bool" where
  "op_capacity_ok bound (Insert h) = True"
| "op_capacity_ok bound (SetCapacity n) = (n < bound)"

text \<open>
  The state of a table that the 32-bit counters describe exactly: the counter is the sum
  of the costs, the sum is within the capacity, and the capacity is below \<open>bound\<close>.
\<close>

definition table_ok :: "nat \<Rightarrow> HpackDecoder \<Rightarrow> bool" where
  "table_ok bound d \<longleftrightarrow>
     current_dynamic_table_size d = table_cost (dynamic_table d)
     \<and> table_cost (dynamic_table d) \<le> max_dynamic_table_size d
     \<and> max_dynamic_table_size d < bound"

text \<open>The encoder's table seen as a decoder's.\<close>

definition enc_table :: "HpackEncoder \<Rightarrow> HpackDecoder" where
  "enc_table c =
     \<lparr>dynamic_table = enc_dynamic_table c,
      current_dynamic_table_size = enc_current_dynamic_table_size c,
      max_dynamic_table_size = own_max_dynamic_table_size c\<rparr>"


subsection \<open>Auxiliary notions for the Huffman code\<close>

text \<open>The number of bits that the table gives an octet.\<close>

definition code_length :: "byte \<Rightarrow> nat" where
  "code_length ch = snd (HUFFMAN_CODES ! unat ch)"

text \<open>
  The outer loop of \<open>initialize_huffman_decode_tree\<close> over the entries of the table
  from index \<open>i\<close> on, as a recursion over the list.
\<close>

fun init_from :: "nat \<Rightarrow> (nat \<times> nat) list \<Rightarrow> HuffmanDecodeNode \<Rightarrow> HuffmanDecodeNode" where
  "init_from i [] root = root"
| "init_from i (cb # rest) root =
     init_from (i + 1) rest (insert_code i (code_bits (fst cb) (snd cb)) root)"

text \<open>
  The node that a sequence of bits leads to, and what the decoder reads there: the
  symbol stored at the end of a path and whether the end of the path is marked as a
  prefix of EOS (nothing and \<open>False\<close> where the path leaves the tree).
\<close>

fun walk :: "HuffmanDecodeNode \<Rightarrow> bool list \<Rightarrow> HuffmanDecodeNode option" where
  "walk t [] = Some t"
| "walk t (b # bs) = (case children t b of None \<Rightarrow> None | Some n \<Rightarrow> walk n bs)"

definition symbol_at :: "HuffmanDecodeNode \<Rightarrow> bool list \<Rightarrow> byte option" where
  "symbol_at t q = (case walk t q of None \<Rightarrow> None | Some n \<Rightarrow> symbol n)"

definition eos_at :: "HuffmanDecodeNode \<Rightarrow> bool list \<Rightarrow> bool" where
  "eos_at t q = (case walk t q of None \<Rightarrow> False | Some n \<Rightarrow> is_eos_prefix n)"

text \<open>
  The symbol that the insertions of the table entries leave at the end of the path \<open>q\<close>:
  the index of the last entry whose code is \<open>q\<close>.
\<close>

fun scan_symbol :: "nat \<Rightarrow> (nat \<times> nat) list \<Rightarrow> bool list \<Rightarrow> byte option \<Rightarrow> byte option" where
  "scan_symbol k [] q acc = acc"
| "scan_symbol k (cb # rest) q acc =
     scan_symbol (k + 1) rest q
       (if snd cb = length q \<and> code_bits (fst cb) (snd cb) = q then Some (of_nat k) else acc)"


section \<open>Properties\<close>

subsection \<open>Integer primitive\<close>

lemma nat_and_exp: "((n::nat) AND 2 ^ k = 2 ^ k) = bit n k"
proof
  assume "n AND 2 ^ k = 2 ^ k"
  then have "n AND 2 ^ k \<noteq> 0" by simp
  then show "bit n k" by (simp add: and_exp_eq_0_iff_not_bit)
next
  assume "bit n k"
  then show "n AND 2 ^ k = 2 ^ k"
    by (intro bit_eqI) (auto simp add: bit_simps)
qed

lemma nat_and_127: "(n::nat) AND 127 = n mod 128"
  using take_bit_eq_mask [of 7 n] take_bit_eq_mod [of 7 n] by (simp add: mask_eq_exp_minus_1)

lemma nat_and_128: "((n::nat) AND 128 = 128) = odd (n div 128)"
  using nat_and_exp [of n 7] by (simp add: bit_iff_odd)

lemma and127: "unat (b AND 127 :: byte) = unat b mod 128"
  by (simp add: unsigned_and_eq nat_and_127)

lemma and128: "(b AND 128 = 128) = (128 \<le> unat b)" for b :: byte
proof -
  have "(b AND 128 = 128) = (unat (b AND 128) = unat (128 :: byte))"
    by (simp only: word_unat_eq_iff)
  also have "\<dots> = (unat b AND 128 = 128)"
    by (simp add: unsigned_and_eq)
  also have "\<dots> = odd (unat b div 128)"
    by (rule nat_and_128)
  also have "\<dots> = (128 \<le> unat b)"
  proof -
    have "unat b < 256" using unsigned_less [of b] by simp
    then have "unat b div 128 = 0 \<or> unat b div 128 = 1" by arith
    then show ?thesis by auto
  qed
  finally show ?thesis .
qed

lemma nat_or_exp: "x < 2 ^ k \<Longrightarrow> (2 ^ k :: nat) OR x = 2 ^ k + x"
proof -
  assume "x < 2 ^ k"
  then have "\<not> bit x k" by (simp add: bit_iff_odd)
  then have "x AND 2 ^ k = 0" by (simp add: and_exp_eq_0_iff_not_bit)
  then have "2 ^ k AND x = 0" by (simp add: and.commute)
  then show ?thesis by (rule disjunctive_add_eq_or [symmetric])
qed

lemma or128: "x < 128 \<Longrightarrow> unat (0x80 OR of_nat x :: byte) = 128 + x"
  using nat_or_exp [of x 7] by (simp add: unsigned_or_eq unat_of_nat)

lemma unat_group: "x < 256 \<Longrightarrow> unat (of_nat x :: byte) = x"
  by (simp add: unat_of_nat)

lemma decode_encode_loop:
  "m \<le> 63 \<Longrightarrow> acc + w * 2 ^ m < 2 ^ 64 \<Longrightarrow>
   decode_integer_loop (encode_integer_loop w @ rest) acc m = (acc + w * 2 ^ m, HpackError_OK, rest)"
proof (induction w arbitrary: acc m rule: encode_integer_loop.induct)
  case (1 w)
  show ?case
  proof (cases "w \<ge> 128")
    case False
    then have enc: "encode_integer_loop w = [of_nat w]"
      by (subst encode_integer_loop.simps) simp
    from False have u: "unat (of_nat w :: byte) = w" by (simp add: unat_group)
    have lt: "w * 2 ^ m < 2 ^ 64" using "1.prems" by simp
    show ?thesis using False "1.prems" lt
      by (simp add: enc and127 and128 u)
  next
    case True
    let ?b = "0x80 OR of_nat (w mod 128) :: byte"
    have enc: "encode_integer_loop w = ?b # encode_integer_loop (w div 128)"
      using True by (subst encode_integer_loop.simps) simp
    have ub: "unat ?b = 128 + w mod 128" by (rule or128) simp
    have "2 ^ (m + 7) \<le> w * 2 ^ m"
      using True by (simp add: power_add)
    then have "(2::nat) ^ (m + 7) < 2 ^ 64" using "1.prems" by simp
    then have m7: "m + 7 < 64" by (simp only: power_strict_increasing_iff) 
    have split: "w mod 128 * 2 ^ m + w div 128 * 2 ^ (m + 7) = w * 2 ^ m"
    proof -
      have "w div 128 * 2 ^ (m + 7) = 128 * (w div 128) * 2 ^ m"
        by (simp add: power_add)
      then have "w mod 128 * 2 ^ m + w div 128 * 2 ^ (m + 7) = (w mod 128 + 128 * (w div 128)) * 2 ^ m"
        by (simp only: add_mult_distrib)
      then show ?thesis by (simp only: mod_mult_div_eq)
    qed
    have lt1: "w mod 128 * 2 ^ m < 2 ^ 64" using split "1.prems" by arith
    have lt2: "acc + w mod 128 * 2 ^ m < 2 ^ 64" using split "1.prems" by arith
    have ih: "decode_integer_loop (encode_integer_loop (w div 128) @ rest) (acc + w mod 128 * 2 ^ m) (m + 7)
              = (acc + w mod 128 * 2 ^ m + w div 128 * 2 ^ (m + 7), HpackError_OK, rest)"
      using m7 split "1.prems" by (intro "1.IH" True) auto
    show ?thesis
      using m7 lt1 lt2 ih split by (simp add: enc and127 and128 ub Let_def add.assoc)
  qed
qed



lemma nat_and_low: "(x::nat) AND (2 ^ n - 1) = x mod 2 ^ n"
  using take_bit_eq_mask [of n x] take_bit_eq_mod [of n x] by (simp add: mask_eq_exp_minus_1)

lemma and_low_byte:
  "unat (b AND 15 :: byte) = unat b mod 16"
  "unat (b AND 31 :: byte) = unat b mod 32"
  "unat (b AND 63 :: byte) = unat b mod 64"
  using nat_and_low [of "unat b" 4] nat_and_low [of "unat b" 5] nat_and_low [of "unat b" 6]
  by (simp_all add: unsigned_and_eq)

lemma integer_round_trip_aux:
  fixes N :: nat and mask :: byte
  assumes m: "\<And>b. unat (b AND mask) = unat b mod (N + 1)"
    and um: "unat mask = N" and N: "N < 128" and v: "val < 2 ^ 32"
  shows "(case (if val < N then [of_nat val] else of_nat N # encode_integer_loop (val - N)) @ rest of
            [] \<Rightarrow> (0, HpackError_BUFFER_TOO_SMALL, [])
          | b # r \<Rightarrow> let x = unat (b AND mask)
                     in if x < unat mask then (x, HpackError_OK, r) else decode_integer_loop r x 0)
         = (val, HpackError_OK, rest)"
proof (cases "val < N")
  case True
  then have "unat (of_nat val :: byte) = val" using N by (simp add: unat_of_nat)
  then have "unat ((of_nat val :: byte) AND mask) = val" using True by (simp add: m)
  then show ?thesis using True by (simp add: um)
next
  case False
  have "unat (of_nat N :: byte) = N" using N by (simp add: unat_of_nat)
  then have a: "unat ((of_nat N :: byte) AND mask) = N" by (simp add: m)
  have "N + (val - N) * 2 ^ 0 < 2 ^ 64" using v False by simp
  then have "decode_integer_loop (encode_integer_loop (val - N) @ rest) N 0
             = (N + (val - N) * 2 ^ 0, HpackError_OK, rest)"
    by (intro decode_encode_loop) simp
  then have "decode_integer_loop (encode_integer_loop (val - N) @ rest) N 0
             = (val, HpackError_OK, rest)" using False by simp
  then show ?thesis using False by (simp add: um a)
qed

text \<open>
  Claim C1.  For a prefix width of 4, 5, 6 or 7 bits and every value below \<open>2 ^ 32\<close>,
  \<open>decode_integer\<close> applied to the bytes that \<open>encode_integer\<close> produces (empty
  buffer, zero prefix pattern), followed by any further input \<open>rest\<close>, returns exactly the
  value with \<open>HpackError::OK\<close> and leaves exactly \<open>rest\<close> in the span: it consumes the
  emitted bytes and nothing else.
\<close>

theorem integer_round_trip:
  assumes pb: "prefix_bits \<in> {4, 5, 6, 7}" and v: "val < 2 ^ 32"
  shows "decode_integer (encode_integer [] 0 prefix_bits val @ rest) prefix_bits
         = (val, HpackError_OK, rest)"
proof -
  from pb consider "prefix_bits = 4" | "prefix_bits = 5" | "prefix_bits = 6" | "prefix_bits = 7"
    by auto
  then show ?thesis
  proof cases
    case 1
    show ?thesis
      using integer_round_trip_aux [of 15 15 val rest] v
      by (simp add: 1 encode_integer_def decode_integer_def and_low_byte Let_def split: if_splits)
  next
    case 2
    show ?thesis
      using integer_round_trip_aux [of 31 31 val rest] v
      by (simp add: 2 encode_integer_def decode_integer_def and_low_byte Let_def split: if_splits)
  next
    case 3
    show ?thesis
      using integer_round_trip_aux [of 63 63 val rest] v
      by (simp add: 3 encode_integer_def decode_integer_def and_low_byte Let_def split: if_splits)
  next
    case 4
    show ?thesis
      using integer_round_trip_aux [of 127 127 val rest] v
      by (simp add: 4 encode_integer_def decode_integer_def and127 Let_def split: if_splits)
  qed
qed

theorem integer_round_trip_witness:
  "(5::nat) \<in> {4, 5, 6, 7} \<and> (1337::nat) < 2 ^ 32 \<and>
   encode_integer [] 0 5 1337 = [0x1F, 0x9A, 0x0A] \<and>
   decode_integer ([0x1F, 0x9A, 0x0A] @ [0x82]) 5 = (1337, HpackError_OK, [0x82])"
proof -
  have e: "encode_integer [] 0 5 1337 = [0x1F, 0x9A, 0x0A]"
    by (simp add: encode_integer_def encode_integer_loop.simps)
  have "decode_integer (encode_integer [] 0 5 1337 @ [0x82]) 5 = (1337, HpackError_OK, [0x82])"
    by (rule integer_round_trip) simp_all
  then show ?thesis using e by simp
qed



subsection \<open>Dynamic table\<close>

lemma table_cost_butlast:
  "t \<noteq> [] \<Longrightarrow> table_cost t = table_cost (butlast t) + e_size (last t)"
  by (induction t) (auto simp: table_cost_def)

lemma u32_sub_exact:
  assumes "b \<le> a" and "a < 2 ^ 32"
  shows "u32_sub a b = a - b"
proof -
  have b: "u32 b = b" using assms by (simp add: u32_def)
  have "a + 2 ^ 32 - b = (a - b) + 2 ^ 32" using assms by simp
  then have "(a + 2 ^ 32 - b) mod 2 ^ 32 = (a - b) mod 2 ^ 32" by (simp only: mod_add_self2)
  then show ?thesis using assms by (simp add: u32_sub_def b)
qed

lemma u32_small: "n < 2 ^ 32 \<Longrightarrow> u32 n = n"
  by (simp add: u32_def)

text \<open>
  Eviction, when the 32-bit sum cannot wrap: the entries that remain are the first \<open>k\<close>
  of the list (the newest), so the entries removed are the oldest ones, from the back;
  the counter stays the sum of the costs; and the loop stops with room for
  \<open>required_space\<close> or with an empty table.
\<close>

lemma evict_props:
  assumes "current_dynamic_table_size d = table_cost (dynamic_table d)"
    and "table_cost (dynamic_table d) + r < 2 ^ 32"
  shows "\<exists>k. dynamic_table (evict_from_dynamic_table d r) = take k (dynamic_table d)
           \<and> current_dynamic_table_size (evict_from_dynamic_table d r)
               = table_cost (dynamic_table (evict_from_dynamic_table d r))
           \<and> max_dynamic_table_size (evict_from_dynamic_table d r) = max_dynamic_table_size d
           \<and> (table_cost (dynamic_table (evict_from_dynamic_table d r)) + r
                 \<le> max_dynamic_table_size d
               \<or> dynamic_table (evict_from_dynamic_table d r) = [])"
  using assms
proof (induction d r rule: evict_from_dynamic_table.induct)
  case (1 d r)
  let ?t = "dynamic_table d"
  show ?case
  proof (cases "u32 (current_dynamic_table_size d + r) > max_dynamic_table_size d \<and> ?t \<noteq> []")
    case False
    then have e: "evict_from_dynamic_table d r = d"
      by (subst evict_from_dynamic_table.simps) (simp only: if_False)
    have "u32 (current_dynamic_table_size d + r) = table_cost ?t + r"
      using "1.prems" by (simp add: u32_small)
    then have "table_cost ?t + r \<le> max_dynamic_table_size d \<or> ?t = []"
      using False by auto
    then show ?thesis using "1.prems" e
      by (intro exI [of _ "length ?t"]) auto
  next
    case True
    let ?d1 = "d\<lparr>current_dynamic_table_size :=
                   u32_sub (current_dynamic_table_size d) (e_size (last ?t)),
                 dynamic_table := butlast ?t\<rparr>"
    have e: "evict_from_dynamic_table d r = evict_from_dynamic_table ?d1 r"
      using True by (subst evict_from_dynamic_table.simps) simp
    have c: "table_cost ?t = table_cost (butlast ?t) + e_size (last ?t)"
      using True by (intro table_cost_butlast) simp
    have cur1: "current_dynamic_table_size ?d1 = table_cost (dynamic_table ?d1)"
      using "1.prems" c by (simp add: u32_sub_exact)
    have b1: "table_cost (dynamic_table ?d1) + r < 2 ^ 32"
      using "1.prems" c by simp
    from "1.IH" [OF True cur1 b1] obtain k where
      k: "dynamic_table (evict_from_dynamic_table ?d1 r) = take k (dynamic_table ?d1)"
         "current_dynamic_table_size (evict_from_dynamic_table ?d1 r)
            = table_cost (dynamic_table (evict_from_dynamic_table ?d1 r))"
         "max_dynamic_table_size (evict_from_dynamic_table ?d1 r) = max_dynamic_table_size ?d1"
         "table_cost (dynamic_table (evict_from_dynamic_table ?d1 r)) + r
            \<le> max_dynamic_table_size ?d1
          \<or> dynamic_table (evict_from_dynamic_table ?d1 r) = []"
      by blast
    have "take k (butlast ?t) = take (min k (length ?t - 1)) ?t"
      by (simp add: butlast_conv_take min.commute)
    then show ?thesis using k e
      by (intro exI [of _ "min k (length ?t - 1)"]) auto
  qed
qed

lemma evict_max [simp]:
  "max_dynamic_table_size (evict_from_dynamic_table d r) = max_dynamic_table_size d"
proof (induction d r rule: evict_from_dynamic_table.induct)
  case (1 d r)
  show ?case
  proof (cases "u32 (current_dynamic_table_size d + r) > max_dynamic_table_size d
                \<and> dynamic_table d \<noteq> []")
    case True
    then show ?thesis using "1.IH" by (subst evict_from_dynamic_table.simps) simp
  next
    case False
    then show ?thesis by (subst evict_from_dynamic_table.simps) (simp only: if_False)
  qed
qed

text \<open>
  An entry whose cost exceeds the capacity: the table is cleared and the entry is not
  stored.
\<close>

lemma add_oversize_clears:
  assumes "length (h_name h) + length (h_value h) + 32 > max_dynamic_table_size d"
  shows "dynamic_table (add_to_dynamic_table d h) = []
         \<and> current_dynamic_table_size (add_to_dynamic_table d h) = 0
         \<and> max_dynamic_table_size (add_to_dynamic_table d h) = max_dynamic_table_size d"
  using assms by (simp add: add_to_dynamic_table_def)

lemma add_table_ok:
  assumes ok: "table_ok (2 ^ 31) d"
  shows "table_ok (2 ^ 31) (add_to_dynamic_table d h)
         \<and> (\<exists>k. dynamic_table (add_to_dynamic_table d h)
                  = (if length (h_name h) + length (h_value h) + 32 > max_dynamic_table_size d
                     then []
                     else DynamicTableEntry (h_name h) (h_value h) # take k (dynamic_table d)))"
proof (cases "length (h_name h) + length (h_value h) + 32 > max_dynamic_table_size d")
  case True
  then show ?thesis using ok
    by (simp add: add_to_dynamic_table_def table_ok_def table_cost_def)
next
  case False
  let ?es = "length (h_name h) + length (h_value h) + 32"
  let ?d' = "evict_from_dynamic_table d ?es"
  from False ok have es: "?es < 2 ^ 31" by (simp add: table_ok_def)
  then have ues: "u32 ?es = ?es" by (simp add: u32_def)
  have cur: "current_dynamic_table_size d = table_cost (dynamic_table d)"
    using ok by (simp add: table_ok_def)
  have "table_cost (dynamic_table d) < 2 ^ 31" using ok by (simp add: table_ok_def)
  then have b: "table_cost (dynamic_table d) + ?es < 2 ^ 32" using es by simp
  from evict_props [OF cur b] obtain k where
    k: "dynamic_table ?d' = take k (dynamic_table d)"
       "current_dynamic_table_size ?d' = table_cost (dynamic_table ?d')"
       "max_dynamic_table_size ?d' = max_dynamic_table_size d"
       "table_cost (dynamic_table ?d') + ?es \<le> max_dynamic_table_size d \<or> dynamic_table ?d' = []"
    by blast
  have le: "table_cost (dynamic_table ?d') + ?es \<le> max_dynamic_table_size d"
    using k(4) False by (auto simp: table_cost_def)
  then have lt: "table_cost (dynamic_table ?d') + ?es < 2 ^ 32" using ok by (simp add: table_ok_def)
  have "table_ok (2 ^ 31) (add_to_dynamic_table d h)"
    using False ok le lt k
    by (simp add: add_to_dynamic_table_def table_ok_def Let_def ues u32_small
        table_cost_def DynamicTableEntry_def)
  moreover have "dynamic_table (add_to_dynamic_table d h)
                 = DynamicTableEntry (h_name h) (h_value h) # take k (dynamic_table d)"
    using False k by (simp add: add_to_dynamic_table_def Let_def ues)
  ultimately show ?thesis using False by auto
qed

lemma set_max_table_ok:
  assumes ok: "table_ok (2 ^ 31) d" and n: "n < 2 ^ 31"
  shows "table_ok (2 ^ 31) (set_max_dynamic_table_size d n)
         \<and> max_dynamic_table_size (set_max_dynamic_table_size d n) = n
         \<and> (\<exists>k. dynamic_table (set_max_dynamic_table_size d n) = take k (dynamic_table d))"
proof -
  let ?d0 = "d\<lparr>max_dynamic_table_size := n\<rparr>"
  let ?d' = "evict_from_dynamic_table ?d0 0"
  have cur: "current_dynamic_table_size ?d0 = table_cost (dynamic_table ?d0)"
    using ok by (simp add: table_ok_def)
  have "table_cost (dynamic_table d) < 2 ^ 31" using ok by (simp add: table_ok_def)
  then have b: "table_cost (dynamic_table ?d0) + 0 < 2 ^ 32" by simp
  from evict_props [OF cur b] obtain k where
    k: "dynamic_table ?d' = take k (dynamic_table ?d0)"
       "current_dynamic_table_size ?d' = table_cost (dynamic_table ?d')"
       "max_dynamic_table_size ?d' = max_dynamic_table_size ?d0"
       "table_cost (dynamic_table ?d') + 0 \<le> max_dynamic_table_size ?d0 \<or> dynamic_table ?d' = []"
    by blast
  have "table_cost (dynamic_table ?d') \<le> n"
    using k(4) by (auto simp: table_cost_def)
  then show ?thesis using k n
    by (auto simp add: set_max_dynamic_table_size_def table_ok_def)
qed

lemma apply_table_op_ok:
  "table_ok (2 ^ 31) d \<Longrightarrow> op_capacity_ok (2 ^ 31) x \<Longrightarrow> table_ok (2 ^ 31) (apply_table_op d x)"
  using add_table_ok [of d] set_max_table_ok [of d] by (cases x) auto

text \<open>
  As long as every capacity in force is below \<open>2 ^ 31\<close>, every run of insertions and
  capacity changes leaves the sum of the entry costs within the capacity, and the
  counter equal to that sum.
\<close>

lemma dynamic_table_invariant_below_2_31:
  assumes "m0 < 2 ^ 31" and "\<forall>x \<in> set ops. op_capacity_ok (2 ^ 31) x"
  shows "table_ok (2 ^ 31) (foldl apply_table_op (new_HpackDecoder m0) ops)"
proof -
  have "table_ok (2 ^ 31) d \<Longrightarrow> \<forall>x \<in> set ops. op_capacity_ok (2 ^ 31) x
        \<Longrightarrow> table_ok (2 ^ 31) (foldl apply_table_op d ops)" for d
  proof (induction ops arbitrary: d)
    case Nil
    then show ?case by simp
  next
    case (Cons a ops)
    have "table_ok (2 ^ 31) (apply_table_op d a)"
      using Cons.prems by (intro apply_table_op_ok) simp_all
    then have "table_ok (2 ^ 31) (foldl apply_table_op (apply_table_op d a) ops)"
      using Cons.prems by (intro Cons.IH) simp_all
    then show ?case by simp
  qed
  moreover have "table_ok (2 ^ 31) (new_HpackDecoder m0)"
    using assms(1) by (simp add: table_ok_def new_HpackDecoder_def table_cost_def)
  ultimately show ?thesis using assms(2) by blast
qed

text \<open>The encoder's operations are the decoder's, on the encoder's fields.\<close>

lemma enc_evict_is_evict:
  "enc_table (enc_evict_from_dynamic_table c r) = evict_from_dynamic_table (enc_table c) r"
proof (induction c r rule: enc_evict_from_dynamic_table.induct)
  case (1 c r)
  show ?case
  proof (cases "u32 (enc_current_dynamic_table_size c + r) > own_max_dynamic_table_size c
                \<and> enc_dynamic_table c \<noteq> []")
    case True
    then show ?thesis
      using "1.IH"
      by (subst enc_evict_from_dynamic_table.simps, subst evict_from_dynamic_table.simps)
         (simp add: enc_table_def)
  next
    case False
    then show ?thesis
      by (subst enc_evict_from_dynamic_table.simps, subst evict_from_dynamic_table.simps)
         (auto simp add: enc_table_def)
  qed
qed

lemma enc_apply_is_apply:
  "enc_table (enc_apply_table_op c x) = apply_table_op (enc_table c) x"
proof (cases x)
  case (Insert h)
  let ?r = "u32 (length (h_name h) + length (h_value h) + 32)"
  define e where "e = enc_evict_from_dynamic_table c ?r"
  define d' where "d' = evict_from_dynamic_table (enc_table c) ?r"
  have F: "d' = enc_table e" unfolding e_def d'_def by (rule enc_evict_is_evict [symmetric])
  have m: "max_dynamic_table_size (enc_table c) = own_max_dynamic_table_size c"
    by (simp add: enc_table_def)
  have "enc_table (enc_add_to_dynamic_table c h) = add_to_dynamic_table (enc_table c) h"
  proof (cases "length (h_name h) + length (h_value h) + 32 > own_max_dynamic_table_size c")
    case True
    then show ?thesis
      by (simp add: enc_add_to_dynamic_table_def add_to_dynamic_table_def enc_table_def)
  next
    case False
    have l: "enc_add_to_dynamic_table c h
             = e\<lparr>enc_dynamic_table := DynamicTableEntry (h_name h) (h_value h) # enc_dynamic_table e,
                 enc_current_dynamic_table_size :=
                   u32 (enc_current_dynamic_table_size e
                        + u32 (e_size (DynamicTableEntry (h_name h) (h_value h))))\<rparr>"
      using False by (simp add: enc_add_to_dynamic_table_def Let_def e_def)
    have r: "add_to_dynamic_table (enc_table c) h
             = d'\<lparr>dynamic_table := DynamicTableEntry (h_name h) (h_value h) # dynamic_table d',
                  current_dynamic_table_size := u32 (current_dynamic_table_size d' + ?r)\<rparr>"
      using False by (simp add: add_to_dynamic_table_def Let_def d'_def m)
    show ?thesis unfolding l r F
      by (simp add: enc_table_def DynamicTableEntry_def)
  qed
  then show ?thesis using Insert by simp
next
  case (SetCapacity n)
  have "enc_table (enc_evict_from_dynamic_table (c\<lparr>own_max_dynamic_table_size := n\<rparr>) 0)
        = evict_from_dynamic_table (enc_table (c\<lparr>own_max_dynamic_table_size := n\<rparr>)) 0"
    by (rule enc_evict_is_evict)
  then show ?thesis using SetCapacity
    by (simp add: set_own_max_dynamic_table_size_def set_max_dynamic_table_size_def enc_table_def)
qed

text \<open>
  Claim C3.  The claim says that after any sequence of insertions and capacity changes
  the sum of the entry costs is at most the capacity.  The counters are \<open>uint32_t\<close> and
  the test in \<open>evict_from_dynamic_table\<close> adds two of them in 32 bits.  With the capacity
  \<open>2 ^ 32 - 1\<close> and two headers whose names have \<open>2 ^ 31\<close> octets (cost
  \<open>2 ^ 31 + 32\<close> each), the second insertion computes \<open>(2 ^ 31 + 32) + (2 ^ 31 + 32)\<close>
  as 64, evicts nothing, and leaves two entries whose costs add up to \<open>2 ^ 32 + 64\<close>,
  above the capacity, with the counter at 64.
\<close>

theorem dynamic_table_size_wraps:
  "(let big = \<lparr>h_name = replicate (2 ^ 31) 0, h_value = [], h_sensitive = False\<rparr>;
        d = foldl apply_table_op (new_HpackDecoder (2 ^ 32 - 1))
              [SetCapacity (2 ^ 32 - 1), Insert big, Insert big]
    in length (dynamic_table d) = 2
       \<and> table_cost (dynamic_table d) = 2 ^ 32 + 64
       \<and> max_dynamic_table_size d = 2 ^ 32 - 1
       \<and> current_dynamic_table_size d = 64
       \<and> \<not> table_cost (dynamic_table d) \<le> max_dynamic_table_size d)"
  by (simp add: Let_def new_HpackDecoder_def set_max_dynamic_table_size_def
      add_to_dynamic_table_def evict_from_dynamic_table.simps u32_def table_cost_def
      DynamicTableEntry_def)


subsection \<open>Dynamic table size update\<close>

lemma size_update_pattern:
  fixes b :: byte
  assumes a: "b AND 0xE0 = 0x20"
  shows "b AND 0x80 \<noteq> 0x80" and "b AND 0xC0 \<noteq> 0x40" and "b AND 0xF0 \<noteq> 0x00"
    and "b AND 0xF0 \<noteq> 0x10"
proof -
  have c: "(b AND m) AND 0xE0 = 0x20 AND m" for m :: byte
  proof -
    have "(b AND m) AND 0xE0 = (b AND 0xE0) AND m" by (simp add: ac_simps)
    then show ?thesis by (simp only: a)
  qed
  show "b AND 0x80 \<noteq> 0x80" using c [of "0x80"] by auto
  show "b AND 0xC0 \<noteq> 0x40" using c [of "0xC0"] by auto
  show "b AND 0xF0 \<noteq> 0x00" using c [of "0xF0"] by auto
  show "b AND 0xF0 \<noteq> 0x10" using c [of "0xF0"] by auto
qed

lemma decode_loop_Nil: "decode_loop d headers [] = (d, headers, HpackError_OK)"
  by (subst decode_loop.simps) simp

lemma decode_loop_Cons:
  "data \<noteq> [] \<Longrightarrow>
   decode_loop d headers data =
     (case decode_field d headers data of
        (d', headers', error_status, data') \<Rightarrow>
          if error_status \<noteq> HpackError_OK then (d', headers', error_status)
          else decode_loop d' headers' data')"
  by (subst decode_loop.simps) simp

lemma decode_integer_size_200: "decode_integer [0x3F, 0xA9, 0x01] 5 = (200, HpackError_OK, [])"
  by (simp add: decode_integer_def Let_def)

text \<open>
  Claim C4, as stated, fails.  A decoder whose capacity was set to 100 with
  \<open>set_max_dynamic_table_size\<close> receives the block \<open>3F A9 01\<close>, a size update to 200.
  The claim says the update exceeds the signalled maximum and is rejected; the code
  accepts it and raises the capacity to 200, because it compares the value with the
  constant \<open>DEFAULT_DYNAMIC_TABLE_SIZE\<close> and not with the configured limit.
\<close>

theorem size_update_above_signalled_limit_accepted:
  "decode (set_max_dynamic_table_size (new_HpackDecoder 4096) 100) [0x3F, 0xA9, 0x01]
   = ([], HpackError_OK,
      \<lparr>dynamic_table = [], current_dynamic_table_size = 0, max_dynamic_table_size = 200\<rparr>)"
  by (simp add: decode_def decode_loop_Cons decode_loop_Nil decode_field_def
      decode_integer_size_200 Let_def set_max_dynamic_table_size_def new_HpackDecoder_def
      evict_from_dynamic_table.simps u32_def DEFAULT_DYNAMIC_TABLE_SIZE_def)

text \<open>
  Claim C4, amended.  In \<open>HpackDecoder::decode\<close>, when the next field starts with the
  pattern \<open>001xxxxx\<close> and its 5-bit-prefix integer decodes to \<open>sz\<close>: the block is
  rejected with \<open>COMPRESSION_ERROR\<close> (decoder unchanged) if a header field was already
  decoded in this block; it is rejected with \<open>COMPRESSION_ERROR\<close> if \<open>sz\<close> exceeds the
  fixed constant \<open>DEFAULT_DYNAMIC_TABLE_SIZE = 4096\<close>, whatever capacity was configured;
  otherwise decoding goes on with the capacity set to \<open>sz\<close> and eviction applied: the
  entries kept are the newest ones, and a table whose counter was exact stays exact and
  within the new capacity.
\<close>

theorem size_update_rule:
  assumes ne: "data \<noteq> []" and pat: "hd data AND 0xE0 = 0x20"
    and int: "decode_integer data 5 = (sz, HpackError_OK, rest)"
  shows "decode_loop d headers data =
           (if headers \<noteq> [] then (d, headers, HpackError_COMPRESSION_ERROR)
            else if sz > DEFAULT_DYNAMIC_TABLE_SIZE then (d, headers, HpackError_COMPRESSION_ERROR)
            else decode_loop (set_max_dynamic_table_size d sz) [] rest)
         \<and> max_dynamic_table_size (set_max_dynamic_table_size d sz) = sz
         \<and> (sz \<le> DEFAULT_DYNAMIC_TABLE_SIZE \<and> table_ok (2 ^ 31) d \<longrightarrow>
              table_ok (2 ^ 31) (set_max_dynamic_table_size d sz)
              \<and> (\<exists>k. dynamic_table (set_max_dynamic_table_size d sz) = take k (dynamic_table d)))"
proof -
  have f: "decode_field d headers data =
             (if headers \<noteq> [] then (d, headers, HpackError_COMPRESSION_ERROR, rest)
              else if sz > DEFAULT_DYNAMIC_TABLE_SIZE
              then (d, headers, HpackError_COMPRESSION_ERROR, rest)
              else (set_max_dynamic_table_size d (u32 sz), headers, HpackError_OK, rest))"
    using size_update_pattern [OF pat] pat
    by (simp add: decode_field_def int Let_def)
  have u: "sz \<le> DEFAULT_DYNAMIC_TABLE_SIZE \<Longrightarrow> u32 sz = sz"
    by (simp add: u32_def DEFAULT_DYNAMIC_TABLE_SIZE_def)
  have "decode_loop d headers data =
           (if headers \<noteq> [] then (d, headers, HpackError_COMPRESSION_ERROR)
            else if sz > DEFAULT_DYNAMIC_TABLE_SIZE then (d, headers, HpackError_COMPRESSION_ERROR)
            else decode_loop (set_max_dynamic_table_size d sz) [] rest)"
    using u by (simp add: decode_loop_Cons [OF ne] f)
  moreover have "max_dynamic_table_size (set_max_dynamic_table_size d sz) = sz"
    by (simp add: set_max_dynamic_table_size_def)
  moreover have "table_ok (2 ^ 31) (set_max_dynamic_table_size d sz)
              \<and> (\<exists>k. dynamic_table (set_max_dynamic_table_size d sz) = take k (dynamic_table d))"
    if "sz \<le> DEFAULT_DYNAMIC_TABLE_SIZE" and "table_ok (2 ^ 31) d"
  proof -
    have "sz < 2 ^ 31" using that(1) by (simp add: DEFAULT_DYNAMIC_TABLE_SIZE_def)
    then show ?thesis using set_max_table_ok [OF that(2)] by blast
  qed
  ultimately show ?thesis by blast
qed

theorem size_update_rule_witness:
  "[0x3F, 0xA9, 0x01] \<noteq> ([] :: byte list)
   \<and> hd [0x3F, 0xA9, 0x01] AND 0xE0 = (0x20 :: byte)
   \<and> decode_integer [0x3F, 0xA9, 0x01] 5 = (200, HpackError_OK, [])
   \<and> (200::nat) \<le> DEFAULT_DYNAMIC_TABLE_SIZE
   \<and> table_ok (2 ^ 31) (new_HpackDecoder 4096)
   \<and> decode_loop (new_HpackDecoder 4096) [] [0x3F, 0xA9, 0x01]
       = decode_loop (set_max_dynamic_table_size (new_HpackDecoder 4096) 200) [] []
   \<and> max_dynamic_table_size (set_max_dynamic_table_size (new_HpackDecoder 4096) 200) = 200
   \<and> table_ok (2 ^ 31) (set_max_dynamic_table_size (new_HpackDecoder 4096) 200)"
proof -
  have ne: "[0x3F, 0xA9, 0x01] \<noteq> ([] :: byte list)" by simp
  have pat: "hd [0x3F, 0xA9, 0x01] AND 0xE0 = (0x20 :: byte)" by simp
  have le: "(200::nat) \<le> DEFAULT_DYNAMIC_TABLE_SIZE" by (simp add: DEFAULT_DYNAMIC_TABLE_SIZE_def)
  have ok: "table_ok (2 ^ 31) (new_HpackDecoder 4096)"
    by (simp add: table_ok_def new_HpackDecoder_def table_cost_def)
  show ?thesis
    using size_update_rule [OF ne pat decode_integer_size_200, of "new_HpackDecoder 4096" "[]"]
      ne pat le ok decode_integer_size_200
    by simp
qed


subsection \<open>Stream windows\<close>

lemma i32_id: "- (2 ^ 31) \<le> x \<Longrightarrow> x < 2 ^ 31 \<Longrightarrow> i32 x = x"
  by (simp add: i32_def)

lemma available_window_id: "0 \<le> w \<Longrightarrow> w < 2 ^ 31 \<Longrightarrow> available_window w = nat w"
  by (simp add: available_window_def u32_def)

lemma get_or_create_stream_new:
  assumes "get_or_create_stream c stream_id = Inr (c', s)" and "streams c stream_id = None"
  shows "remote_window_size s = i32 (int (initial_window_size (local_settings c)))
         \<and> local_window_size s = i32 (int (initial_window_size (remote_settings c)))
         \<and> st_state s = IDLE \<and> streams c' stream_id = Some s"
  using assms
  by (auto simp: get_or_create_stream_def Let_def new_Http2Stream_def split: if_splits)

text \<open>
  Claim C5.  The send window of a new stream (\<open>remote_window_size_\<close>) is to start at the
  peer's \<open>INITIAL_WINDOW_SIZE\<close> and its receive window (\<open>local_window_size_\<close>) at our
  own.  \<open>get_or_create_stream\<close> passes the two settings the other way round: on a server
  connection that has applied the peer's \<open>INITIAL_WINDOW_SIZE = 1000\<close> (our own setting
  still being 65535), the new stream 1 has receive window 1000 and send window 65535.
\<close>

theorem new_stream_windows_swapped:
  "map_sum id (\<lambda>(c', s). (local_window_size s, remote_window_size s))
     (get_or_create_stream
        (apply_remote_setting (new_Http2Connection True)
           \<lparr>set_identifier = SETTINGS_INITIAL_WINDOW_SIZE, setting_value = 1000\<rparr>) 1)
   = Inr (1000, 65535)"
  by (simp add: get_or_create_stream_def apply_remote_setting_def new_Http2Connection_def
      Let_def new_Http2Stream_def i32_def default_ConnectionSettings_def
      SETTINGS_INITIAL_WINDOW_SIZE_def SETTINGS_HEADER_TABLE_SIZE_def SETTINGS_ENABLE_PUSH_def
      SETTINGS_MAX_CONCURRENT_STREAMS_def MAX_ALLOWED_WINDOW_SIZE_def DEFAULT_INITIAL_WINDOW_SIZE_def)

lemma update_remote_window_negative:
  assumes "- (2 ^ 31) < delta" "delta < 0" "0 \<le> remote_window_size s"
  shows "update_remote_window s (uint32_of delta) = (False, s)"
proof -
  have "delta mod 2 ^ 32 = (delta + 2 ^ 32) mod 2 ^ 32"
    by simp
  also have "\<dots> = delta + 2 ^ 32"
    using assms(1,2) by (intro mod_pos_pos_trivial) auto
  finally have "delta mod 2 ^ 32 = delta + 2 ^ 32" .
  hence u: "int (uint32_of delta) = delta + 2 ^ 32" "uint32_of delta \<noteq> 0"
    using assms(1) by (auto simp: uint32_of_def)
  show ?thesis using u assms by (simp add: update_remote_window_def)
qed

text \<open>
  Claim C6.  A change of the peer's \<open>INITIAL_WINDOW_SIZE\<close> by \<open>\<delta>\<close> is to move the send
  window of every stream that is neither idle nor closed by \<open>\<delta>\<close>, also for negative
  \<open>\<delta>\<close>.  In \<open>apply_remote_setting\<close> a negative \<open>\<delta>\<close> reaches \<open>update_remote_window\<close> as
  the \<open>uint32_t\<close> value \<open>2 ^ 32 + \<delta>\<close>, which fails the overflow test: whenever the new
  value \<open>v\<close> is below the old one, a stream that is neither idle nor closed and whose
  send window is not negative keeps its window, and nothing is reported.
\<close>

theorem initial_window_decrease_not_applied:
  assumes "streams c sid = Some s" and "st_state s \<noteq> IDLE" and "st_state s \<noteq> CLOSED"
    and "0 \<le> remote_window_size s"
    and "v < initial_window_size (remote_settings c)"
    and "initial_window_size (remote_settings c) \<le> 2 ^ 31 - 1"
  shows "streams (apply_remote_setting c
            \<lparr>set_identifier = SETTINGS_INITIAL_WINDOW_SIZE, setting_value = v\<rparr>) sid = Some s
       \<and> actions (apply_remote_setting c
            \<lparr>set_identifier = SETTINGS_INITIAL_WINDOW_SIZE, setting_value = v\<rparr>) = actions c"
proof -
  let ?old = "initial_window_size (remote_settings c)"
  have a: "i32 (int v) = int v" "i32 (int ?old) = int ?old"
    using assms(5,6) by (auto intro!: i32_id)
  have b: "i32 (int v - int ?old) = int v - int ?old"
    using assms(5,6) by (intro i32_id) auto
  have "update_remote_window s (uint32_of (int v - int ?old)) = (False, s)"
    using assms(4,5,6) by (intro update_remote_window_negative) auto
  thus ?thesis using assms(1,2,3,5,6) a b
    by (simp add: apply_remote_setting_def Let_def adjust_stream_window_def
      SETTINGS_INITIAL_WINDOW_SIZE_def SETTINGS_HEADER_TABLE_SIZE_def SETTINGS_ENABLE_PUSH_def
      SETTINGS_MAX_CONCURRENT_STREAMS_def MAX_ALLOWED_WINDOW_SIZE_def)
qed

theorem initial_window_decrease_not_applied_witness:
  "streams (apply_remote_setting
      ((new_Http2Connection True)
         \<lparr>streams := [1 \<mapsto> (new_Http2Stream 1 65535 65535)\<lparr>st_state := OPEN\<rparr>]\<rparr>)
      \<lparr>set_identifier = SETTINGS_INITIAL_WINDOW_SIZE, setting_value = 1000\<rparr>) 1
   = Some \<lparr>st_id = 1, st_state = OPEN, local_window_size = 65535, remote_window_size = 65535\<rparr>
   \<and> actions (apply_remote_setting
      ((new_Http2Connection True)
         \<lparr>streams := [1 \<mapsto> (new_Http2Stream 1 65535 65535)\<lparr>st_state := OPEN\<rparr>]\<rparr>)
      \<lparr>set_identifier = SETTINGS_INITIAL_WINDOW_SIZE, setting_value = 1000\<rparr>) = []"
  using initial_window_decrease_not_applied
    [of "(new_Http2Connection True)
         \<lparr>streams := [1 \<mapsto> (new_Http2Stream 1 65535 65535)\<lparr>st_state := OPEN\<rparr>]\<rparr>"
        1 "(new_Http2Stream 1 65535 65535)\<lparr>st_state := OPEN\<rparr>" 1000]
  by (simp add: new_Http2Connection_def new_Http2Stream_def i32_def
      default_ConnectionSettings_def DEFAULT_INITIAL_WINDOW_SIZE_def)

subsection \<open>send_data\<close>

lemma serialize_chunk:
  assumes "data_offset + n \<le> length data" "length data < 2 ^ 24"
  shows "serialize_data_frame (chunk_frame stream_id data end_stream data_offset n) =
     write_frame_header []
       \<lparr>fh_length = n, fh_type = FrameType_DATA,
        fh_flags = (if end_stream \<and> data_offset + n = length data then END_STREAM_FLAG else 0),
        fh_stream_id = stream_id\<rparr>
     @ take n (drop data_offset data)"
proof -
  have "\<not> has_flag END_STREAM_FLAG PADDED_FLAG" "\<not> has_flag 0 PADDED_FLAG"
    by (simp_all add: has_flag_def END_STREAM_FLAG_def PADDED_FLAG_def)
  moreover have "u32 n = n" using assms by (simp add: u32_def)
  moreover have "min (length data - data_offset) n = n" using assms by simp
  ultimately show ?thesis
    by (simp add: serialize_data_frame_def chunk_frame_def Let_def)
qed

lemma send_chunk_ok:
  assumes "data_offset + n \<le> length data" "length data < 2 ^ 24" "0 < n"
    "0 \<le> remote_window_size stream - int n" "remote_window_size stream < 2 ^ 31"
    "0 \<le> remote_connection_window_size c - int n" "remote_connection_window_size c < 2 ^ 31"
  shows "send_chunk c stream_id stream data end_stream data_offset n =
     (if data_offset + n = length data then Some True else None,
      c\<lparr>actions := actions c @ [SendBytes
            (write_frame_header []
               \<lparr>fh_length = n, fh_type = FrameType_DATA,
                fh_flags = (if end_stream \<and> data_offset + n = length data then END_STREAM_FLAG else 0),
                fh_stream_id = stream_id\<rparr>
             @ take n (drop data_offset data))],
         remote_connection_window_size := remote_connection_window_size c - int n\<rparr>,
      if end_stream \<and> data_offset + n = length data
      then transition_to_half_closed_local (stream\<lparr>remote_window_size := remote_window_size stream - int n\<rparr>)
      else stream\<lparr>remote_window_size := remote_window_size stream - int n\<rparr>,
      data_offset + n)"
proof -
  have n: "i32 (int n) = int n" using assms by (intro i32_id) auto
  have s: "i32 (remote_window_size stream - int n) = remote_window_size stream - int n"
    using assms by (intro i32_id) auto
  have k: "i32 (remote_connection_window_size c - int n) = remote_connection_window_size c - int n"
    using assms by (intro i32_id) auto
  have e: "\<not> empty_end data end_stream (data_offset + n)"
    using assms(3) by (simp add: empty_end_def)
  have w: "write_frame_header [] h \<noteq> []" for h
    by (simp add: write_frame_header_def write_uint32_big_endian_def)
  show ?thesis
    using assms(3) n s k e w
    by (simp add: send_chunk_def serialize_chunk [OF assms(1,2)] record_connection_data_sent_def
        record_data_sent_def)
qed


lemma send_data_body_chunk:
  assumes "data_offset < length data" "length data < 2 ^ 24"
    "chunk_limit c stream data data_offset = n" "0 < n"
    "0 \<le> remote_window_size stream - int n" "remote_window_size stream < 2 ^ 31"
    "0 \<le> remote_connection_window_size c - int n" "remote_connection_window_size c < 2 ^ 31"
  shows "send_data_body c stream_id stream data end_stream data_offset =
         send_chunk c stream_id stream data end_stream data_offset n"
proof -
  have "available_window (remote_window_size stream) \<noteq> 0"
    "available_window (remote_connection_window_size c) \<noteq> 0"
    using assms by (simp_all add: available_window_id)
  moreover have "\<not> empty_end data end_stream data_offset"
    using assms(1) by (auto simp: empty_end_def)
  ultimately show ?thesis using assms(3,4) by (simp add: send_data_body_def)
qed

text \<open>
  Claim C9.  On a connection whose peer allows frames of 16384 octets, with a stream
  that is open and with a stream send window and a connection send window of at least
  30000 (65535 under the default settings), \<open>send_data\<close> with 30000 octets and
  \<open>end_stream = true\<close> returns \<open>true\<close> and hands exactly two frames to \<open>on_send_bytes_\<close>:
  a \<open>DATA\<close> frame of length 16384 without flags carrying the first 16384 octets, then a
  \<open>DATA\<close> frame of length 13616 with \<open>END_STREAM\<close> carrying the rest.  Afterwards both
  send windows are 30000 smaller, the stream is half closed (local), and nothing else
  has changed.
\<close>

theorem oversize_data_segmentation:
  assumes sid: "sid \<noteq> 0" and s: "streams c sid = Some s" and o: "st_state s = OPEN"
    and ws: "30000 \<le> remote_window_size s" "remote_window_size s < 2 ^ 31"
    and wc: "30000 \<le> remote_connection_window_size c" "remote_connection_window_size c < 2 ^ 31"
    and mfs: "max_frame_size (remote_settings c) = 16384"
    and len: "length data = 30000"
  shows "send_data c sid data True =
     (True,
      c\<lparr>actions := actions c @
           [SendBytes (write_frame_header []
                         \<lparr>fh_length = 16384, fh_type = FrameType_DATA, fh_flags = 0, fh_stream_id = sid\<rparr>
                       @ take 16384 data),
            SendBytes (write_frame_header []
                         \<lparr>fh_length = 13616, fh_type = FrameType_DATA, fh_flags = END_STREAM_FLAG,
                          fh_stream_id = sid\<rparr>
                       @ drop 16384 data)],
         remote_connection_window_size := remote_connection_window_size c - 30000,
         streams := (streams c)(sid \<mapsto>
           s\<lparr>remote_window_size := remote_window_size s - 30000, st_state := HALF_CLOSED_LOCAL\<rparr>)\<rparr>)"
proof -
  let ?c1 = "c\<lparr>actions := actions c @
           [SendBytes (write_frame_header []
                         \<lparr>fh_length = 16384, fh_type = FrameType_DATA, fh_flags = 0, fh_stream_id = sid\<rparr>
                       @ take 16384 data)],
         remote_connection_window_size := remote_connection_window_size c - 16384\<rparr>"
  let ?s1 = "s\<lparr>remote_window_size := remote_window_size s - 16384\<rparr>"
  have l1: "chunk_limit c s data 0 = 16384"
    using ws wc mfs len by (simp add: chunk_limit_def available_window_id u32_def)
  have b1: "send_data_body c sid s data True 0 = (None, ?c1, ?s1, 16384)"
    using ws wc len
    by (subst send_data_body_chunk [OF _ _ l1]) (simp_all add: send_chunk_ok)
  have l2: "chunk_limit ?c1 ?s1 data 16384 = 13616"
    using ws wc mfs len by (simp add: chunk_limit_def available_window_id u32_def)
  have t: "take 13616 (drop 16384 data) = drop 16384 data"
    using len by simp
  have b2: "send_data_body ?c1 sid ?s1 data True 16384 =
     (Some True,
      ?c1\<lparr>actions := actions ?c1 @
            [SendBytes (write_frame_header []
                         \<lparr>fh_length = 13616, fh_type = FrameType_DATA, fh_flags = END_STREAM_FLAG,
                          fh_stream_id = sid\<rparr>
                       @ drop 16384 data)],
          remote_connection_window_size := remote_connection_window_size ?c1 - 13616\<rparr>,
      transition_to_half_closed_local (?s1\<lparr>remote_window_size := remote_window_size ?s1 - 13616\<rparr>),
      30000)"
    using ws wc len
    by (subst send_data_body_chunk [OF _ _ l2]) (simp_all add: send_chunk_ok t)
  have loop2: "send_data_loop ?c1 sid ?s1 data True 16384 =
     (True,
      ?c1\<lparr>actions := actions ?c1 @
            [SendBytes (write_frame_header []
                         \<lparr>fh_length = 13616, fh_type = FrameType_DATA, fh_flags = END_STREAM_FLAG,
                          fh_stream_id = sid\<rparr>
                       @ drop 16384 data)],
          remote_connection_window_size := remote_connection_window_size ?c1 - 13616\<rparr>,
      transition_to_half_closed_local (?s1\<lparr>remote_window_size := remote_window_size ?s1 - 13616\<rparr>))"
    using len by (subst send_data_loop.simps) (simp add: b2)
  have loop1: "send_data_loop c sid s data True 0 = send_data_loop ?c1 sid ?s1 data True 16384"
    using len by (subst send_data_loop.simps) (simp add: b1)
  show ?thesis
    using sid s o
    by (simp add: send_data_def get_stream_def loop1 loop2 transition_to_half_closed_local_def)
qed


theorem oversize_data_segmentation_witness:
  "send_data
   ((new_Http2Connection True)
      \<lparr>streams := [1 \<mapsto> (new_Http2Stream 1 65535 65535)\<lparr>st_state := OPEN\<rparr>]\<rparr>)
   1 (replicate 30000 7) True =
     (True,
      (new_Http2Connection True)
      \<lparr>actions :=
           [SendBytes ([0, 0x40, 0, 0, 0, 0, 0, 0, 1] @ replicate 16384 7),
            SendBytes ([0, 0x35, 0x30, 0, 1, 0, 0, 0, 1] @ replicate 13616 7)],
         remote_connection_window_size := 35535,
         streams := [1 \<mapsto>
           \<lparr>st_id = 1, st_state = HALF_CLOSED_LOCAL, local_window_size = 65535,
            remote_window_size = 35535\<rparr>]\<rparr>)"
  using oversize_data_segmentation [of 1 "(new_Http2Connection True)
      \<lparr>streams := [1 \<mapsto> (new_Http2Stream 1 65535 65535)\<lparr>st_state := OPEN\<rparr>]\<rparr>"
      "(new_Http2Stream 1 65535 65535)\<lparr>st_state := OPEN\<rparr>" "replicate 30000 7"]
  by (simp add: new_Http2Connection_def new_Http2Stream_def i32_def DEFAULT_INITIAL_WINDOW_SIZE_def
      default_ConnectionSettings_def DEFAULT_MAX_FRAME_SIZE_def write_frame_header_def
      write_uint24_big_endian_def write_uint32_big_endian_def FrameType_DATA_def END_STREAM_FLAG_def)



subsection \<open>Parser and connection\<close>

lemma to_string_digit: "n < 10 \<Longrightarrow> to_string n = [digit_char n]"
  by (subst to_string.simps) simp

lemma parse_loop_break: "parse_pass cb s = Inl r \<Longrightarrow> parse_loop cb s = r"
  by (subst parse_loop.simps) simp

lemma parse_loop_next:
  "parse_pass cb s = Inr s' \<Longrightarrow>
   parse_loop cb s =
     (if buffer (fst s') = [] \<or> length (buffer (fst s')) < 9 then (ParserError_OK, s')
      else parse_loop cb s')"
  by (subst parse_loop.simps) simp

lemmas frame_consts =
  FrameType_DATA_def FrameType_HEADERS_def FrameType_PRIORITY_def FrameType_RST_STREAM_def
  FrameType_SETTINGS_def FrameType_PUSH_PROMISE_def FrameType_PING_def FrameType_GOAWAY_def
  FrameType_WINDOW_UPDATE_def FrameType_CONTINUATION_def

text \<open>
  What the two functions that Claim C8 names do with an increment of zero.  The parser
  never produces a \<open>WINDOW_UPDATE\<close> frame with increment zero, so the branch of
  \<open>handle_window_update_frame\<close> that resets the stream is never entered from the wire.
\<close>

lemma parse_window_update_payload_nonzero:
  "parse_window_update_payload header payload = Inr frame \<Longrightarrow> wf_window_size_increment frame \<noteq> 0"
  by (auto simp: parse_window_update_payload_def split: if_splits)

lemma handle_window_update_frame_zero:
  assumes "wf_window_size_increment frame = 0" and "fh_stream_id (wf_header frame) \<noteq> 0"
  shows "actions (handle_window_update_frame c frame) =
         actions c @ [SendRstStream (fh_stream_id (wf_header frame)) ErrorCode_PROTOCOL_ERROR]"
  using assms by (simp add: handle_window_update_frame_def Let_def split: option.splits)

text \<open>
  Claim C8.  The bytes \<open>00 00 04 08 00 00 00 00 01 00 00 00 00\<close> (a \<open>WINDOW_UPDATE\<close> on
  stream 1 with increment 0) are to give a stream error: \<open>RST_STREAM(1, PROTOCOL_ERROR)\<close>
  and no \<open>GOAWAY\<close>.  In the code, for every handler installed in the parser, every
  connection whose peer allows frames of 4 octets and every parser that is at a frame
  boundary, \<open>process_incoming_data\<close> consumes nothing, leaves the frame in the buffer
  and emits \<open>GOAWAY(last_processed_stream_id, PROTOCOL_ERROR, "Parser error: code 9")\<close>
  and nothing else: the parser rejects the frame with \<open>INVALID_WINDOW_UPDATE_INCREMENT\<close>
  before any handler sees it.
\<close>

theorem zero_increment_window_update_goaway:
  assumes "buffer p = []" and "current_state p = READING_FRAME_HEADER"
    and "4 \<le> max_frame_size (remote_settings c)"
  shows "process_incoming_data handler (p, c) [0, 0, 4, 8, 0, 0, 0, 0, 1, 0, 0, 0, 0] =
     (0,
      p\<lparr>current_state := READING_FRAME_PAYLOAD,
        buffer := [0, 0, 4, 8, 0, 0, 0, 0, 1, 0, 0, 0, 0],
        pending_frame_header :=
          \<lparr>fh_length = 4, fh_type = FrameType_WINDOW_UPDATE, fh_flags = 0, fh_stream_id = 1\<rparr>\<rparr>,
      c\<lparr>actions := actions c @
           [SendGoAway (last_processed_stream_id c) ErrorCode_PROTOCOL_ERROR
              ''Parser error: code 9'']\<rparr>)"
proof -
  let ?bytes = "[0, 0, 4, 8, 0, 0, 0, 0, 1, 0, 0, 0, 0] :: byte list"
  let ?h = "\<lparr>fh_length = 4, fh_type = FrameType_WINDOW_UPDATE, fh_flags = 0, fh_stream_id = 1\<rparr>"
  let ?p0 = "p\<lparr>buffer := ?bytes\<rparr>"
  have h: "read_pending_header ?p0 = Some (?p0\<lparr>pending_frame_header := ?h\<rparr>)"
    using assms(1,2)
    by (simp add: read_pending_header_def read_frame_header_def FrameType_WINDOW_UPDATE_def)
  have pl: "parse_frame_payload c ?h [0, 0, 0, 0] = (Inl INVALID_WINDOW_UPDATE_INCREMENT, c)"
    by (simp add: parse_frame_payload_def frame_consts parse_window_update_payload_def)
  have "parse_pass handler (?p0, c, 0, []) =
      Inl (INVALID_WINDOW_UPDATE_INCREMENT,
           (?p0\<lparr>pending_frame_header := ?h, current_state := READING_FRAME_PAYLOAD\<rparr>, c, 0, []))"
    using assms h pl by (simp add: parse_pass_def)
  from parse_loop_break [OF this] show ?thesis
    using assms(1)
    by (simp add: process_incoming_data_def parse_def parser_error_code_def to_string_digit
        digit_char_def)
qed


theorem zero_increment_window_update_goaway_witness:
  "process_incoming_data window_update_handler
     (new_Http2Parser,
      (new_Http2Connection True)
        \<lparr>streams := [1 \<mapsto> (new_Http2Stream 1 65535 65535)\<lparr>st_state := OPEN\<rparr>]\<rparr>)
     [0, 0, 4, 8, 0, 0, 0, 0, 1, 0, 0, 0, 0] =
   (0,
    new_Http2Parser
      \<lparr>current_state := READING_FRAME_PAYLOAD,
       buffer := [0, 0, 4, 8, 0, 0, 0, 0, 1, 0, 0, 0, 0],
       pending_frame_header :=
         \<lparr>fh_length = 4, fh_type = FrameType_WINDOW_UPDATE, fh_flags = 0, fh_stream_id = 1\<rparr>\<rparr>,
    (new_Http2Connection True)
      \<lparr>streams := [1 \<mapsto> (new_Http2Stream 1 65535 65535)\<lparr>st_state := OPEN\<rparr>],
       actions := [SendGoAway 0 ErrorCode_PROTOCOL_ERROR ''Parser error: code 9'']\<rparr>)"
  using zero_increment_window_update_goaway
    [of new_Http2Parser
        "(new_Http2Connection True)
           \<lparr>streams := [1 \<mapsto> (new_Http2Stream 1 65535 65535)\<lparr>st_state := OPEN\<rparr>]\<rparr>"
        window_update_handler]
  by (simp add: new_Http2Parser_def new_Http2Connection_def default_ConnectionSettings_def
      DEFAULT_MAX_FRAME_SIZE_def)

text \<open>
  The part of Claim C7 that the parser does enforce: while a continuation is expected, a
  \<open>CONTINUATION\<close> on another stream is refused and the connection is left as it was.
\<close>

lemma continuation_on_other_stream_refused:
  assumes "expected_continuation_stream_id c = Some S" and "fh_stream_id header \<noteq> S"
  shows "parse_continuation_payload c header payload = (Inl CONTINUATION_WRONG_STREAM, c)"
  using assms
  by (simp add: parse_continuation_payload_def is_expecting_continuation_def
      get_expected_continuation_stream_id_def)

text \<open>
  Claim C7.  Between a \<open>HEADERS\<close> or \<open>PUSH_PROMISE\<close> frame without \<open>END_HEADERS\<close> and the
  closing \<open>CONTINUATION\<close>, no frame of another kind is to be accepted or delivered.
  \<open>parse\<close> looks at the continuation state only inside the payload parsers of
  \<open>HEADERS\<close>, \<open>PUSH_PROMISE\<close> and \<open>CONTINUATION\<close>: on every connection that expects a
  continuation (and whose peer allows frames of 8 octets), with the parser at a frame
  boundary, a \<open>PING\<close> frame is parsed without error, consumed, and handed to the
  callback; the connection that the callback receives is unchanged, so the continuation
  is still expected.
\<close>

theorem ping_accepted_while_continuation_expected:
  assumes "is_expecting_continuation c"
    and "buffer p = []" and "current_state p = READING_FRAME_HEADER"
    and "8 \<le> max_frame_size (remote_settings c)"
  shows "parse cb p c [0, 0, 8, 6, 0, 0, 0, 0, 0, 1, 2, 3, 4, 5, 6, 7, 8] =
     ((17, ParserError_OK),
      p\<lparr>pending_frame_header :=
          \<lparr>fh_length = 8, fh_type = FrameType_PING, fh_flags = 0, fh_stream_id = 0\<rparr>\<rparr>,
      cb (Ping \<lparr>pgf_header =
                  \<lparr>fh_length = 8, fh_type = FrameType_PING, fh_flags = 0, fh_stream_id = 0\<rparr>,
                pgf_opaque_data = [1, 2, 3, 4, 5, 6, 7, 8]\<rparr>) c,
      [Ping \<lparr>pgf_header =
                  \<lparr>fh_length = 8, fh_type = FrameType_PING, fh_flags = 0, fh_stream_id = 0\<rparr>,
                pgf_opaque_data = [1, 2, 3, 4, 5, 6, 7, 8]\<rparr>])"
proof -
  let ?bytes = "[0, 0, 8, 6, 0, 0, 0, 0, 0, 1, 2, 3, 4, 5, 6, 7, 8] :: byte list"
  let ?h = "\<lparr>fh_length = 8, fh_type = FrameType_PING, fh_flags = 0, fh_stream_id = 0\<rparr>"
  let ?f = "Ping \<lparr>pgf_header = ?h, pgf_opaque_data = [1, 2, 3, 4, 5, 6, 7, 8]\<rparr>"
  let ?p0 = "p\<lparr>buffer := ?bytes\<rparr>"
  have h: "read_pending_header ?p0 = Some (?p0\<lparr>pending_frame_header := ?h\<rparr>)"
    using assms(3)
    by (simp add: read_pending_header_def read_frame_header_def FrameType_PING_def)
  have pl: "parse_frame_payload c ?h [1, 2, 3, 4, 5, 6, 7, 8] = (Inr ?f, c)"
    by (simp add: parse_frame_payload_def frame_consts parse_ping_payload_def)
  have "parse_pass cb (?p0, c, 0, []) =
      Inr (?p0\<lparr>pending_frame_header := ?h, current_state := READING_FRAME_HEADER, buffer := []\<rparr>,
           cb ?f c, 17, [?f])"
    using assms h pl by (simp add: parse_pass_def)
  from parse_loop_next [OF this] show ?thesis
    using assms(2,3)
    by (simp add: parse_def)
qed


lemma headers_without_end_headers:
  "parse cb new_Http2Parser (new_Http2Connection True) [0, 0, 1, 1, 0, 0, 0, 0, 1, 0x82] =
     ((10, ParserError_OK),
      new_Http2Parser\<lparr>pending_frame_header :=
          \<lparr>fh_length = 1, fh_type = FrameType_HEADERS, fh_flags = 0, fh_stream_id = 1\<rparr>\<rparr>,
      cb (Headers \<lparr>hf_header =
                     \<lparr>fh_length = 1, fh_type = FrameType_HEADERS, fh_flags = 0, fh_stream_id = 1\<rparr>,
                   hf_pad_length = None, hf_exclusive_dependency = None,
                   hf_stream_dependency = None, hf_weight = None, hf_headers = []\<rparr>)
         ((new_Http2Connection True)
            \<lparr>expected_continuation_stream_id := Some 1,
             header_block_buffer := [0x82],
             header_sequence_initiator_type := Some FrameType_HEADERS,
             pending_header_initiator_frame :=
               Some (Headers \<lparr>hf_header =
                     \<lparr>fh_length = 1, fh_type = FrameType_HEADERS, fh_flags = 0, fh_stream_id = 1\<rparr>,
                   hf_pad_length = None, hf_exclusive_dependency = None,
                   hf_stream_dependency = None, hf_weight = None, hf_headers = []\<rparr>)\<rparr>),
      [Headers \<lparr>hf_header =
                     \<lparr>fh_length = 1, fh_type = FrameType_HEADERS, fh_flags = 0, fh_stream_id = 1\<rparr>,
                   hf_pad_length = None, hf_exclusive_dependency = None,
                   hf_stream_dependency = None, hf_weight = None, hf_headers = []\<rparr>])"
proof -
  let ?bytes = "[0, 0, 1, 1, 0, 0, 0, 0, 1, 0x82] :: byte list"
  let ?h = "\<lparr>fh_length = 1, fh_type = FrameType_HEADERS, fh_flags = 0, fh_stream_id = 1\<rparr>"
  let ?f = "\<lparr>hf_header = ?h, hf_pad_length = None, hf_exclusive_dependency = None,
             hf_stream_dependency = None, hf_weight = None, hf_headers = []\<rparr>"
  let ?c = "new_Http2Connection True"
  let ?c1 = "?c\<lparr>expected_continuation_stream_id := Some 1,
             header_block_buffer := [0x82],
             header_sequence_initiator_type := Some FrameType_HEADERS,
             pending_header_initiator_frame := Some (Headers ?f)\<rparr>"
  let ?p0 = "new_Http2Parser\<lparr>buffer := ?bytes\<rparr>"
  have h: "read_pending_header ?p0 = Some (?p0\<lparr>pending_frame_header := ?h\<rparr>)"
    by (simp add: read_pending_header_def read_frame_header_def FrameType_HEADERS_def
        new_Http2Parser_def)
  have flags: "\<not> has_flag 0 PADDED_FLAG" "\<not> has_flag 0 PRIORITY_FLAG" "\<not> has_flag 0 END_HEADERS_FLAG"
    by (simp_all add: has_flag_def)
  have ph: "parse_headers_payload ?c ?h [0x82] = (Inr ?f, ?c1)"
    by (simp add: parse_headers_payload_def flags Let_def fragment_length_def size_t_of_def
        value_or_0_def i32_def start_header_block_def is_expecting_continuation_def
        get_stream_id_def
        clear_header_block_buffer_def append_to_header_block_buffer_def
        expect_continuation_for_stream_def new_Http2Connection_def)
  have pl: "parse_frame_payload ?c ?h [0x82] = (Inr (Headers ?f), ?c1)"
    using ph by (simp add: parse_frame_payload_def frame_consts)
  have mfs: "max_frame_size (remote_settings ?c) = 16384"
    by (simp add: new_Http2Connection_def default_ConnectionSettings_def DEFAULT_MAX_FRAME_SIZE_def)
  have "parse_pass cb (?p0, ?c, 0, []) =
      Inr (?p0\<lparr>pending_frame_header := ?h, current_state := READING_FRAME_HEADER, buffer := []\<rparr>,
           cb (Headers ?f) ?c1, 10, [Headers ?f])"
    using h pl mfs by (simp add: parse_pass_def new_Http2Parser_def)
  from parse_loop_next [OF this] show ?thesis
    by (simp add: parse_def new_Http2Parser_def)
qed

theorem ping_accepted_while_continuation_expected_witness:
  "(case parse (\<lambda>f c. c) new_Http2Parser (new_Http2Connection True)
           [0, 0, 1, 1, 0, 0, 0, 0, 1, 0x82] of
      (r, p, c, delivered) \<Rightarrow>
        r = (10, ParserError_OK) \<and> expected_continuation_stream_id c = Some 1
        \<and> fst (parse (\<lambda>f c. c) p c [0, 0, 8, 6, 0, 0, 0, 0, 0, 1, 2, 3, 4, 5, 6, 7, 8])
            = (17, ParserError_OK)
        \<and> snd (snd (snd (parse (\<lambda>f c. c) p c [0, 0, 8, 6, 0, 0, 0, 0, 0, 1, 2, 3, 4, 5, 6, 7, 8])))
            = [Ping \<lparr>pgf_header =
                       \<lparr>fh_length = 8, fh_type = FrameType_PING, fh_flags = 0, fh_stream_id = 0\<rparr>,
                     pgf_opaque_data = [1, 2, 3, 4, 5, 6, 7, 8]\<rparr>])"
  using ping_accepted_while_continuation_expected [of "(new_Http2Connection True)
            \<lparr>expected_continuation_stream_id := Some 1,
             header_block_buffer := [0x82],
             header_sequence_initiator_type := Some FrameType_HEADERS,
             pending_header_initiator_frame :=
               Some (Headers \<lparr>hf_header =
                     \<lparr>fh_length = 1, fh_type = FrameType_HEADERS, fh_flags = 0, fh_stream_id = 1\<rparr>,
                   hf_pad_length = None, hf_exclusive_dependency = None,
                   hf_stream_dependency = None, hf_weight = None, hf_headers = []\<rparr>)\<rparr>"
      "new_Http2Parser\<lparr>pending_frame_header :=
          \<lparr>fh_length = 1, fh_type = FrameType_HEADERS, fh_flags = 0, fh_stream_id = 1\<rparr>\<rparr>"
      "\<lambda>f c. c"]
  unfolding headers_without_end_headers
  by (simp add: is_expecting_continuation_def new_Http2Parser_def
      new_Http2Connection_def default_ConnectionSettings_def DEFAULT_MAX_FRAME_SIZE_def)



subsection \<open>Huffman code\<close>

lemma length_HUFFMAN_CODES: "length HUFFMAN_CODES = 256"
  by (simp add: HUFFMAN_CODES_def)

lemma HUFFMAN_CODES_find_Some: "HUFFMAN_CODES_find ch = Some (HUFFMAN_CODES ! unat ch)"
proof -
  have "unat ch < 256" using unsigned_less [of ch, where ?'a = nat] by simp
  thus ?thesis by (simp add: HUFFMAN_CODES_find_def length_HUFFMAN_CODES)
qed

lemma total_bits_loop_sum:
  "total_bits_loop input total_bits = Some (total_bits + sum_list (map code_length input))"
  by (induction input arbitrary: total_bits)
     (simp_all add: HUFFMAN_CODES_find_Some code_length_def split: prod.splits)

lemma huffman_encode_drain_length:
  "\<exists>out. huffman_encode_drain acc b encoded_data = (b mod 8, out)
         \<and> length out = length encoded_data + b div 8"
proof (induction acc b encoded_data rule: huffman_encode_drain.induct)
  case (1 acc b encoded_data)
  show ?case
  proof (cases "b \<ge> 8")
    case True
    from 1 [OF True] obtain out where
      o: "huffman_encode_drain acc (b - 8)
            (encoded_data @ [of_nat (drop_bit (b - 8) acc AND 0xFF)]) = ((b - 8) mod 8, out)"
         "length out = length encoded_data + 1 + (b - 8) div 8"
      by auto
    have "(b - 8) mod 8 = b mod 8" "1 + (b - 8) div 8 = b div 8"
      using True by (simp_all add: le_mod_geq le_div_geq)
    with o True show ?thesis
      by (subst huffman_encode_drain.simps) simp
  next
    case False
    thus ?thesis by (subst huffman_encode_drain.simps) simp
  qed
qed

lemma huffman_encode_loop_length:
  "b < 8 \<Longrightarrow> \<exists>acc' out. huffman_encode_loop input acc b encoded_data
            = Some (acc', (b + sum_list (map code_length input)) mod 8, out)
         \<and> length out = length encoded_data + (b + sum_list (map code_length input)) div 8"
proof (induction input arbitrary: acc b encoded_data)
  case Nil
  thus ?case by simp
next
  case (Cons ch input)
  let ?code = "fst (HUFFMAN_CODES ! unat ch)"
  let ?acc = "take_bit 64 (push_bit (code_length ch) acc) OR ?code"
  obtain out where d: "huffman_encode_drain ?acc (b + code_length ch) encoded_data
       = ((b + code_length ch) mod 8, out)"
      "length out = length encoded_data + (b + code_length ch) div 8"
    using huffman_encode_drain_length by blast
  have "(b + code_length ch) mod 8 < 8" by simp
  from Cons.IH [OF this, of ?acc out] obtain acc' out' where
    l: "huffman_encode_loop input ?acc ((b + code_length ch) mod 8) out
        = Some (acc', ((b + code_length ch) mod 8 + sum_list (map code_length input)) mod 8, out')"
       "length out' = length out + ((b + code_length ch) mod 8 + sum_list (map code_length input)) div 8"
    by blast
  have m: "((b + code_length ch) mod 8 + s) mod 8 = (b + (code_length ch + s)) mod 8" for s
    by (simp add: mod_add_left_eq add.assoc)
  have q: "(b + code_length ch) div 8 + ((b + code_length ch) mod 8 + s) div 8
           = (b + (code_length ch + s)) div 8" for s
    using div_add1_eq [of "b + code_length ch" s 8]
          div_add1_eq [of "(b + code_length ch) mod 8" s 8]
    by (simp add: add.assoc)
  have f: "HUFFMAN_CODES_find ch = Some (?code, code_length ch)"
    by (simp add: HUFFMAN_CODES_find_Some code_length_def)
  have "huffman_encode_loop (ch # input) acc b encoded_data
        = huffman_encode_loop input ?acc ((b + code_length ch) mod 8) out"
    by (simp add: f d(1))
  with d l m q show ?case
    by simp
qed

lemma huffman_encode_length:
  "snd (huffman_encode input) = HuffmanError_OK
   \<and> get_huffman_encoded_length input = Some (length (fst (huffman_encode input)))"
proof -
  let ?n = "sum_list (map code_length input)"
  obtain acc' out where l: "huffman_encode_loop input 0 0 [] = Some (acc', ?n mod 8, out)"
      "length out = ?n div 8"
    using huffman_encode_loop_length [of 0 input 0 "[]"] by auto
  have "(n + 7) div 8 = (if n mod 8 > 0 then n div 8 + 1 else n div 8)" for n :: nat
    by presburger
  from this [of ?n] have "(?n + 7) div 8 = (if ?n mod 8 > 0 then ?n div 8 + 1 else ?n div 8)" .
  thus ?thesis
    using l total_bits_loop_sum [of input 0]
    by (simp add: huffman_encode_def get_huffman_encoded_length_def Let_def)
qed


text \<open>
  Claim C10.  \<open>huffman_encode\<close> always succeeds and emits as many octets as
  \<open>get_huffman_encoded_length\<close> announces (lemma \<open>huffman_encode_length\<close>), but that
  number is not the one of the code of RFC 7541, which the table claims to be: for
  \<open>www.example.com\<close> the table of the source gives 108 bits, hence 14 octets, where the
  code of RFC 7541 (and the test \<open>EncodeWithHuffman\<close> of the repository) gives 12.
\<close>

theorem huffman_length_www_example_com:
  "get_huffman_encoded_length (str ''www.example.com'') = Some 14
   \<and> length (fst (huffman_encode (str ''www.example.com''))) = 14
   \<and> snd (huffman_encode (str ''www.example.com'')) = HuffmanError_OK"
proof -
  have "get_huffman_encoded_length (str ''www.example.com'') = Some 14"
    by (simp add: get_huffman_encoded_length_def total_bits_loop_sum code_length_def str_def
        HUFFMAN_CODES_def)
  thus ?thesis
    using huffman_encode_length [of "str ''www.example.com''"] by simp
qed

subsection \<open>The decoding tree along a path\<close>

lemma code_bits_numeral:
  "code_bits code (numeral k) = ((code div 2 ^ pred_numeral k) mod 2 = 1) # code_bits code (pred_numeral k)"
  by (simp add: numeral_eq_Suc)

lemma code_bits_1: "code_bits code 1 = [code mod 2 = 1]"
  using code_bits.simps(2) [of code 0] by simp

lemma length_code_bits: "length (code_bits code n) = n"
  by (induction n) simp_all

lemma initialize_loop_step:
  "i \<le> 256 \<Longrightarrow> initialize_loop i root = initialize_loop (i + 1) (initialize_step i root)"
  by (subst initialize_loop.simps) simp

lemma initialize_loop_done: "\<not> i \<le> 256 \<Longrightarrow> initialize_loop i root = root"
  by (subst initialize_loop.simps) simp

lemma initialize_loop_init_from:
  "i + length xs = 256 \<Longrightarrow> drop i HUFFMAN_CODES = xs \<Longrightarrow>
   initialize_loop i root = insert_code 256 (code_bits HUFFMAN_EOS 30) (init_from i xs root)"
proof (induction xs arbitrary: i root)
  case Nil
  then have i: "i = 256" by simp
  show ?case
    by (simp add: i initialize_loop_step initialize_loop_done initialize_step_def)
next
  case (Cons cb rest)
  then have i: "i < 256" by simp
  have cb: "HUFFMAN_CODES ! i = cb"
    using Cons.prems(2) i by (metis length_HUFFMAN_CODES nth_via_drop)
  have "drop (i + 1) HUFFMAN_CODES = rest"
    using Cons.prems(2) by (metis Suc_eq_plus1 drop_Suc tl_drop list.sel(3))
  then have "initialize_loop (i + 1) (initialize_step i root)
        = insert_code 256 (code_bits HUFFMAN_EOS 30) (init_from (i + 1) rest (initialize_step i root))"
    using Cons.prems(1) by (intro Cons.IH) simp_all
  then show ?case using i
    by (simp add: initialize_loop_step initialize_step_def cb length_HUFFMAN_CODES)
qed

lemma root_init_from:
  "HUFFMAN_DECODE_TREE_ROOT_INSTANCE
   = insert_code 256 (code_bits HUFFMAN_EOS 30) (init_from 0 HUFFMAN_CODES new_node)"
  unfolding HUFFMAN_DECODE_TREE_ROOT_INSTANCE_def
  by (rule initialize_loop_init_from) (simp_all add: length_HUFFMAN_CODES)

lemma symbol_at_Nil [simp]: "symbol_at t [] = symbol t"
  by (simp add: symbol_at_def)

lemma symbol_at_Cons:
  "symbol_at t (b # q) = (case children t b of None \<Rightarrow> None | Some n \<Rightarrow> symbol_at n q)"
  by (simp add: symbol_at_def split: option.splits)

lemma eos_at_Nil [simp]: "eos_at t [] = is_eos_prefix t"
  by (simp add: eos_at_def)

lemma eos_at_Cons:
  "eos_at t (b # q) = (case children t b of None \<Rightarrow> False | Some n \<Rightarrow> eos_at n q)"
  by (simp add: eos_at_def split: option.splits)

lemma symbol_at_new_node [simp]: "symbol_at new_node q = None"
  by (cases q) (simp_all add: symbol_at_Cons new_node_def children_def)

lemma eos_at_new_node [simp]: "eos_at new_node q = False"
  by (cases q) (simp_all add: eos_at_Cons new_node_def children_def)

lemma symbol_at_child_or_new:
  "symbol_at (child_or_new c) q = (case c of None \<Rightarrow> None | Some n \<Rightarrow> symbol_at n q)"
  by (simp add: child_or_new_def split: option.splits)

lemma eos_at_child_or_new:
  "eos_at (child_or_new c) q = (case c of None \<Rightarrow> False | Some n \<Rightarrow> eos_at n q)"
  by (simp add: child_or_new_def split: option.splits)

lemma symbol_at_insert_code:
  "i \<noteq> 256 \<Longrightarrow>
   symbol_at (insert_code i bs t) q = (if q = bs then Some (of_nat i) else symbol_at t q)"
proof (induction bs arbitrary: t q)
  case Nil
  show ?case using Nil
    by (cases t; cases q) (simp_all add: symbol_at_Cons children_def)
next
  case (Cons b bs)
  show ?case
  proof (cases t)
    case (HuffmanDecodeNode c0 c1 s e)
    show ?thesis
    proof (cases q)
      case Nil
      thus ?thesis using HuffmanDecodeNode by simp
    next
      case (Cons b' q')
      thus ?thesis using HuffmanDecodeNode Cons.IH [OF Cons.prems] Cons.prems
        by (auto simp: symbol_at_Cons children_def mark_eos_prefix_def symbol_at_child_or_new)
    qed
  qed
qed

lemma eos_at_insert_code:
  "i \<noteq> 256 \<Longrightarrow> eos_at (insert_code i bs t) q = eos_at t q"
proof (induction bs arbitrary: t q)
  case Nil
  show ?case using Nil
    by (cases t; cases q) (simp_all add: eos_at_Cons children_def)
next
  case (Cons b bs)
  show ?case
  proof (cases t)
    case (HuffmanDecodeNode c0 c1 s e)
    show ?thesis
    proof (cases q)
      case Nil
      thus ?thesis using HuffmanDecodeNode by simp
    next
      case (Cons b' q')
      thus ?thesis using HuffmanDecodeNode Cons.IH [OF Cons.prems] Cons.prems
        by (auto simp: eos_at_Cons children_def mark_eos_prefix_def eos_at_child_or_new)
    qed
  qed
qed


lemma symbol_at_mark_eos_prefix [simp]: "symbol_at (mark_eos_prefix i n) q = symbol_at n q"
  by (cases q) (simp_all add: symbol_at_Cons mark_eos_prefix_def children_def)

lemma eos_at_mark_eos_prefix:
  "eos_at (mark_eos_prefix 256 n) q = (if q = [] then True else eos_at n q)"
  by (cases q) (simp_all add: eos_at_Cons mark_eos_prefix_def children_def)

lemma symbol_at_insert_eos: "symbol_at (insert_code 256 bs t) q = symbol_at t q"
proof (induction bs arbitrary: t q)
  case Nil
  show ?case by (cases t) simp
next
  case (Cons b bs)
  show ?case
  proof (cases t)
    case (HuffmanDecodeNode c0 c1 s e)
    show ?thesis
    proof (cases q)
      case Nil
      thus ?thesis using HuffmanDecodeNode by simp
    next
      case (Cons b' q')
      thus ?thesis using HuffmanDecodeNode Cons.IH
        by (auto simp: symbol_at_Cons children_def symbol_at_child_or_new)
    qed
  qed
qed

lemma eos_at_insert_eos:
  "eos_at (insert_code 256 bs t) q = (eos_at t q \<or> (q \<noteq> [] \<and> take (length q) bs = q))"
proof (induction bs arbitrary: t q)
  case Nil
  show ?case by (cases t) auto
next
  case (Cons b bs)
  show ?case
  proof (cases t)
    case (HuffmanDecodeNode c0 c1 s e)
    show ?thesis
    proof (cases q)
      case Nil
      thus ?thesis using HuffmanDecodeNode by simp
    next
      case (Cons b' q')
      thus ?thesis using HuffmanDecodeNode Cons.IH
        by (auto simp: eos_at_Cons children_def eos_at_child_or_new eos_at_mark_eos_prefix)
    qed
  qed
qed

lemma symbol_at_init_from:
  "k + length xs \<le> 256 \<Longrightarrow>
   symbol_at (init_from k xs t) q = scan_symbol k xs q (symbol_at t q)"
proof (induction xs arbitrary: k t)
  case Nil
  show ?case by simp
next
  case (Cons cb rest)
  have k: "k \<noteq> 256" using Cons.prems by simp
  have "(code_bits (fst cb) (snd cb) = q) = (snd cb = length q \<and> code_bits (fst cb) (snd cb) = q)"
    using length_code_bits [of "fst cb" "snd cb"] by auto
  thus ?case using Cons.prems
    by (simp add: Cons.IH symbol_at_insert_code [OF k] eq_commute [of q])
qed

lemma eos_at_init_from:
  "k + length xs \<le> 256 \<Longrightarrow> eos_at (init_from k xs t) q = eos_at t q"
proof (induction xs arbitrary: k t)
  case Nil
  show ?case by simp
next
  case (Cons cb rest)
  have k: "k \<noteq> 256" using Cons.prems by simp
  show ?case using Cons.prems by (simp add: Cons.IH eos_at_insert_code [OF k])
qed

lemma symbol_at_root:
  "symbol_at HUFFMAN_DECODE_TREE_ROOT_INSTANCE q = scan_symbol 0 HUFFMAN_CODES q None"
  by (simp add: root_init_from symbol_at_insert_eos symbol_at_init_from length_HUFFMAN_CODES)

lemma eos_at_root:
  "eos_at HUFFMAN_DECODE_TREE_ROOT_INSTANCE q =
     (q \<noteq> [] \<and> take (length q) (code_bits HUFFMAN_EOS 30) = q)"
  by (simp add: root_init_from eos_at_insert_eos eos_at_init_from length_HUFFMAN_CODES)

lemma symbol_at_root_zeros: "symbol_at HUFFMAN_DECODE_TREE_ROOT_INSTANCE [False, False, False, False, False] = Some 48"
  by (simp add: symbol_at_root HUFFMAN_CODES_def code_bits_numeral code_bits_1)


lemma scan_symbol_longer_codes:
  "list_all (\<lambda>cb. length q < snd cb) xs \<Longrightarrow> scan_symbol k xs q acc = acc"
  by (induction xs arbitrary: k acc) auto

lemma HUFFMAN_CODES_min_length: "list_all (\<lambda>cb. 4 < snd cb) HUFFMAN_CODES"
  by (simp add: HUFFMAN_CODES_def)

lemma symbol_at_root_short:
  "length q \<le> 4 \<Longrightarrow> symbol_at HUFFMAN_DECODE_TREE_ROOT_INSTANCE q = None"
  unfolding symbol_at_root
  by (rule scan_symbol_longer_codes)
     (rule list.pred_mono_strong [OF HUFFMAN_CODES_min_length], simp)

lemma walk_snoc:
  "walk t (q @ [b]) = (case walk t q of None \<Rightarrow> None | Some n \<Rightarrow> children n b)"
  by (induction q arbitrary: t) (simp_all split: option.splits)

lemma zeros_path:
  obtains n1 n2 n3 n4 n5 where
    "children HUFFMAN_DECODE_TREE_ROOT_INSTANCE False = Some n1"
    "children n1 False = Some n2" "children n2 False = Some n3"
    "children n3 False = Some n4" "children n4 False = Some n5"
    "symbol n1 = None" "symbol n2 = None" "symbol n3 = None" "symbol n4 = None"
    "symbol n5 = Some 48"
    "\<not> is_eos_prefix n1" "\<not> is_eos_prefix n4"
proof -
  let ?R = HUFFMAN_DECODE_TREE_ROOT_INSTANCE
  from symbol_at_root_zeros obtain n1 n2 n3 n4 n5 where
    w: "children ?R False = Some n1"
    "children n1 False = Some n2" "children n2 False = Some n3"
    "children n3 False = Some n4" "children n4 False = Some n5" "symbol n5 = Some 48"
    by (auto simp: symbol_at_def split: option.splits)
  have "symbol_at ?R [False] = None" "symbol_at ?R [False, False] = None"
    "symbol_at ?R [False, False, False] = None" "symbol_at ?R [False, False, False, False] = None"
    by (simp_all add: symbol_at_root_short)
  hence s: "symbol n1 = None" "symbol n2 = None" "symbol n3 = None" "symbol n4 = None"
    using w by (simp_all add: symbol_at_def)
  have "\<not> eos_at ?R [False]" "\<not> eos_at ?R [False, False, False, False]"
    by (simp_all add: eos_at_root HUFFMAN_EOS_def code_bits_numeral code_bits_1)
  hence "\<not> is_eos_prefix n1" "\<not> is_eos_prefix n4"
    using w by (simp_all add: eos_at_def)
  with w s show ?thesis using that by blast
qed

text \<open>
  Two inputs of \<open>huffman_decode\<close>.  \<open>00 01\<close> is what \<open>huffman_encode\<close> gives for \<open>000\<close>
  (three codes \<open>00000\<close> and one bit of padding).  \<open>07\<close> is the code of \<open>0\<close> followed by
  three bits of padding, a proper prefix of EOS.  Both are refused: in the last octet
  every node that is reached without completing a symbol must be a prefix of EOS, also
  the nodes inside a symbol that starts in that octet.
\<close>

lemma huffman_decode_00_01:
  "huffman_decode [0x00, 0x01] default_max_output_length = ([0x30], HuffmanError_INVALID_PADDING)"
proof -
  obtain n1 n2 n3 n4 n5 where
    "children HUFFMAN_DECODE_TREE_ROOT_INSTANCE False = Some n1"
    "children n1 False = Some n2" "children n2 False = Some n3"
    "children n3 False = Some n4" "children n4 False = Some n5"
    "symbol n1 = None" "symbol n2 = None" "symbol n3 = None" "symbol n4 = None"
    "symbol n5 = Some 48"
    "\<not> is_eos_prefix n1" "\<not> is_eos_prefix n4"
    by (rule zeros_path)
  thus ?thesis
    by (simp add: huffman_decode_def default_max_output_length_def code_bits_numeral code_bits_1)
qed

lemma huffman_decode_07:
  "huffman_decode [0x07] default_max_output_length = ([], HuffmanError_INVALID_PADDING)"
proof -
  obtain n1 n2 n3 n4 n5 where
    "children HUFFMAN_DECODE_TREE_ROOT_INSTANCE False = Some n1"
    "children n1 False = Some n2" "children n2 False = Some n3"
    "children n3 False = Some n4" "children n4 False = Some n5"
    "symbol n1 = None" "symbol n2 = None" "symbol n3 = None" "symbol n4 = None"
    "symbol n5 = Some 48"
    "\<not> is_eos_prefix n1" "\<not> is_eos_prefix n4"
    by (rule zeros_path)
  thus ?thesis
    by (simp add: huffman_decode_def default_max_output_length_def code_bits_numeral code_bits_1)
qed


subsection \<open>String primitive\<close>

lemma and128_zero: "(b AND 128 = 0) = (unat b < 128)" for b :: byte
proof -
  have "(b AND 128 = 0) = (unat (b AND 128) = unat (0 :: byte))"
    by (simp only: word_unat_eq_iff)
  also have "\<dots> = (unat b AND 2 ^ 7 = 0)"
    by (simp add: unsigned_and_eq)
  also have "\<dots> = (\<not> bit (unat b) 7)"
    by (simp only: and_exp_eq_0_iff_not_bit)
  also have "\<dots> = (\<not> odd (unat b div 128))"
    by (simp add: bit_iff_odd)
  also have "\<dots> = (unat b < 128)"
  proof -
    have "unat b < 256" using unsigned_less [of b] by simp
    then have "unat b div 128 = 0 \<or> unat b div 128 = 1" by arith
    then show ?thesis by auto
  qed
  finally show ?thesis .
qed

lemma first_byte_literal:
  "\<exists>b bs. encode_integer [] 0 7 n = b # bs \<and> b AND 0x80 = 0"
proof -
  have a: "(of_nat k :: byte) AND 0x80 = 0" if "k < 128" for k
    using that by (simp add: and128_zero unat_of_nat)
  show ?thesis
    using a [of n] a [of 127]
    by (auto simp: encode_integer_def Let_def)
qed

lemma string_round_trip_literal:
  assumes "length s < 2 ^ 32"
  shows "decode_string (encode_string [] s False @ rest) = (s, HpackError_OK, rest)"
proof -
  obtain b bs where e: "encode_integer [] 0 7 (length s) = b # bs" "b AND 0x80 = 0"
    using first_byte_literal by blast
  have "decode_integer (encode_integer [] 0 7 (length s) @ (s @ rest)) 7
        = (length s, HpackError_OK, s @ rest)"
    using integer_round_trip_aux [of 127 127 "length s" "s @ rest"] assms
    by (simp add: encode_integer_def decode_integer_def and127 Let_def split: if_splits)
  hence "decode_integer (b # bs @ s @ rest) 7 = (length s, HpackError_OK, s @ rest)"
    by (simp add: e)
  thus ?thesis
    using e by (simp add: encode_string_def decode_string_def)
qed


lemma huffman_encode_000: "huffman_encode (str ''000'') = ([0x00, 0x01], HuffmanError_OK)"
  by (simp add: huffman_encode_def HUFFMAN_CODES_find_def str_def HUFFMAN_CODES_def Let_def
      huffman_encode_drain.simps HUFFMAN_EOS_def)

lemma encode_string_000: "encode_string [] (str ''000'') True = [0x82, 0x00, 0x01]"
  by (simp add: encode_string_def huffman_encode_000 encode_integer_def) (simp add: str_def)

text \<open>
  Claim C2.  Decoding what \<open>encode_string\<close> produces is to give the string back, in
  both modes.  Without Huffman coding it does (lemma \<open>string_round_trip_literal\<close>).
  With \<open>try_huffman = true\<close> the string \<open>000\<close> is encoded as \<open>82 00 01\<close> (two octets of
  Huffman code are fewer than three), and \<open>decode_string\<close> answers these bytes with
  \<open>INVALID_HUFFMAN_CODE\<close> and no string.
\<close>

theorem string_round_trip_fails_with_huffman:
  "encode_string [] (str ''000'') True = [0x82, 0x00, 0x01]
   \<and> decode_string (encode_string [] (str ''000'') True)
       = ([], HpackError_INVALID_HUFFMAN_CODE, [])"
  by (simp add: encode_string_000 decode_string_def decode_integer_def huffman_decode_00_01)

end
